theory Spec2Isabelle
  imports Complex_Main
begin

section \<open>Retention-curve models: shifted-beta-geometric and beta-discrete-Weibull\<close>

text \<open>
  A shallow embedding of \<^verbatim>\<open>src/models.py\<close>: the abstract class \<^verbatim>\<open>LTVModel\<close>
  with its shared methods, and the two concrete models \<^verbatim>\<open>SBGModel\<close> and
  \<^verbatim>\<open>BDWModel\<close>.

  Numbers. The program computes with IEEE doubles (numpy \<^verbatim>\<open>float64\<close>). The embedding
  computes with \<^typ>\<open>real\<close>: a statement below is a statement of exact real
  arithmetic, rounding not modelled, unless it names binary64; the binary64 reading is
  given for \<^verbatim>\<open>SBGModel.generate_probabilities\<close> only. The numpy operations \<^verbatim>\<open>np.log\<close>,
  \<^verbatim>\<open>np.exp\<close> and \<^verbatim>\<open>/\<close> on \<^verbatim>\<open>float64\<close> never raise; where numpy answers
  \<^verbatim>\<open>inf\<close> or \<^verbatim>\<open>nan\<close> (logarithm of a non-positive number, division by zero) the
  total functions \<^term>\<open>ln\<close> and \<^term>\<open>(/)\<close> of HOL answer some real number instead. The
  parameter vector is the numpy array that the minimizer hands to the objective, a
  \<^typ>\<open>real list\<close> here. Period counts and time indices are Python integers,
  \<^typ>\<open>int\<close> here.

  Exceptions are values: a function that can raise returns \<open>py_error + 'a\<close>, with
  \<^term>\<open>Inl\<close> for the exception raised first.
\<close>

subsection \<open>Exceptions\<close>

datatype py_error =
    IndexError
  | ValueError
  | TypeError
  | Exception "string list"

text \<open>\<^verbatim>\<open>[f(i) for i in xs]\<close> where \<^verbatim>\<open>f\<close> can raise: the first exception ends the
  comprehension.\<close>

fun comprehension :: "('a \<Rightarrow> py_error + 'b) \<Rightarrow> 'a list \<Rightarrow> py_error + 'b list" where
  "comprehension f [] = Inr []"
| "comprehension f (i # is) =
     (case f i of
        Inl e \<Rightarrow> Inl e
      | Inr y \<Rightarrow> (case comprehension f is of Inl e \<Rightarrow> Inl e | Inr ys \<Rightarrow> Inr (y # ys)))"

text \<open>\<^verbatim>\<open>range(a, b)\<close> for Python integers, as the list of its elements.\<close>

definition range2 :: "int \<Rightarrow> int \<Rightarrow> int list" where
  "range2 a b = [a..b - 1]"

subsection \<open>The model contract\<close>

text \<open>
  An \<^verbatim>\<open>LTVModel\<close> object: the two constructor arguments, the attributes every subclass
  sets (\<^verbatim>\<open>param_names\<close>, \<^verbatim>\<open>bounds\<close>, a numpy array of rows \<^verbatim>\<open>[lower, upper]\<close>), and
  the two abstract methods.
\<close>

record ltv_model =
  optimization_method :: string
  initial_params :: "real list option"
  param_names :: "string list"
  bounds :: "(real \<times> real) list"
  survivor :: "int \<Rightarrow> real list \<Rightarrow> real list option \<Rightarrow> py_error + real"
  generate_probabilities :: "int \<Rightarrow> real list \<Rightarrow> py_error + real list"

text \<open>\<^verbatim>\<open>predicted_survival\<close>: \<^verbatim>\<open>[self.survivor(i, params) for i in range(periods)]\<close>.\<close>

definition predicted_survival :: "ltv_model \<Rightarrow> int \<Rightarrow> real list \<Rightarrow> py_error + real list" where
  "predicted_survival m periods params =
     comprehension (\<lambda>i. survivor m i params None) (range2 0 periods)"

text \<open>\<^verbatim>\<open>survival_rates\<close>:
  \<^verbatim>\<open>[1 - data[0]] + [data[i - 1] - data[i] for i in range(1, len(data))]\<close>;
  \<^verbatim>\<open>data[0]\<close> raises on the empty list.\<close>

fun survival_rates :: "real list \<Rightarrow> py_error + real list" where
  "survival_rates [] = Inl IndexError"
| "survival_rates (d # ds) =
     Inr ([1 - d] @ map (\<lambda>i. (d # ds) ! (i - 1) - (d # ds) ! i) [1..<length (d # ds)])"

subsection \<open>The likelihood objectives\<close>

text \<open>\<^verbatim>\<open>(np.array(params) <= 0).any()\<close>\<close>

definition any_nonpositive :: "real list \<Rightarrow> bool" where
  "any_nonpositive params = list_ex (\<lambda>p. p \<le> 0) params"

text \<open>
  \<^verbatim>\<open>log_likelihood\<close>. After the guard, in the order of the source: the survivors (unless
  passed in), the probabilities, the final survivor; then the comprehension over
  \<^verbatim>\<open>enumerate(survivors)\<close>, whose \<^verbatim>\<open>probabilities[t]\<close> raises when \<^verbatim>\<open>survivors\<close> is
  the longer list; then \<^verbatim>\<open>data[-1]\<close>, which raises on empty data.
\<close>

definition log_likelihood ::
  "ltv_model \<Rightarrow> real list \<Rightarrow> real list \<Rightarrow> real list option \<Rightarrow> py_error + real" where
  "log_likelihood m params data survivors =
     (if any_nonpositive params then Inr (- 1000)
      else
        case (case survivors of None \<Rightarrow> survival_rates data | Some sv \<Rightarrow> Inr sv) of
          Inl e \<Rightarrow> Inl e
        | Inr sv \<Rightarrow>
        (case generate_probabilities m (int (length data)) params of
          Inl e \<Rightarrow> Inl e
        | Inr probabilities \<Rightarrow>
        (case survivor m (int (length data) - 1) params None of
          Inl e \<Rightarrow> Inl e
        | Inr final_survivor_likelihood \<Rightarrow>
            if length probabilities < length sv then Inl IndexError
            else if data = [] then Inl IndexError
            else Inr (sum_list (map (\<lambda>(t, s). s * ln (probabilities ! t)) (enumerate 0 sv))
                      + last data * ln final_survivor_likelihood))))"

text \<open>
  The body of the loop of \<^verbatim>\<open>log_likelihood_multi_cohort\<close> for cohort \<^verbatim>\<open>i\<close>:
  \<^verbatim>\<open>probabilities[j]\<close> raises when the cohort has more than
  \<^verbatim>\<open>len(probabilities) + 1\<close> entries, then \<^verbatim>\<open>cohort[-1]\<close> raises on an empty cohort
  (whose \<^verbatim>\<open>range(len(cohort) - 1)\<close> is empty), then the survivor is evaluated. The
  accumulator \<open>acc\<close> is the variable \<^verbatim>\<open>total\<close> of the source.
\<close>

fun cohort_loop ::
  "ltv_model \<Rightarrow> real list \<Rightarrow> real list \<Rightarrow> nat \<Rightarrow> real \<Rightarrow> (nat \<times> real list) list
     \<Rightarrow> py_error + real" where
  "cohort_loop m params probabilities cohorts acc [] = Inr acc"
| "cohort_loop m params probabilities cohorts acc ((i, cohort) # rest) =
     (if length probabilities < length cohort - 1 then Inl IndexError
      else if cohort = [] then Inl IndexError
      else
        case survivor m (int cohorts - int i - 1) params None of
          Inl e \<Rightarrow> Inl e
        | Inr s \<Rightarrow>
            cohort_loop m params probabilities cohorts
              (acc
               + sum_list (map (\<lambda>j. (cohort ! j - cohort ! (j + 1)) * ln (probabilities ! j))
                            [0..<length cohort - 1])
               + last cohort * ln s)
              rest)"

definition log_likelihood_multi_cohort ::
  "ltv_model \<Rightarrow> real list \<Rightarrow> real list list \<Rightarrow> py_error + real" where
  "log_likelihood_multi_cohort m params data =
     (if any_nonpositive params then Inr (- 1000)
      else
        case data of
          [] \<Rightarrow> Inl IndexError
        | first_cohort # _ \<Rightarrow>
        (case generate_probabilities m (int (length first_cohort)) params of
          Inl e \<Rightarrow> Inl e
        | Inr probabilities \<Rightarrow>
            cohort_loop m params probabilities (length data) 0 (enumerate 0 data)))"

subsection \<open>The shifted-beta-geometric model\<close>

text \<open>One round of the loop of \<^verbatim>\<open>SBGModel.generate_probabilities\<close>:
  \<^verbatim>\<open>p.append((beta + t - 1) / (alpha + beta + t) * p[t - 1])\<close>.\<close>

definition sbg_append :: "real \<Rightarrow> real \<Rightarrow> real list \<Rightarrow> nat \<Rightarrow> real list" where
  "sbg_append alpha beta p t =
     p @ [(beta + real t - 1) / (alpha + beta + real t) * p ! (t - 1)]"

text \<open>The list \<^verbatim>\<open>p\<close> after the loop \<^verbatim>\<open>for t in range(1, periods)\<close>. It starts with
  one entry, so it has \<^verbatim>\<open>max(periods, 1)\<close> entries.\<close>

definition sbg_loop :: "real \<Rightarrow> real \<Rightarrow> nat \<Rightarrow> real list" where
  "sbg_loop alpha beta periods =
     foldl (sbg_append alpha beta) [alpha / (alpha + beta)] [1..<periods]"

text \<open>\<^verbatim>\<open>alpha, beta = params\<close> raises unless \<^verbatim>\<open>params\<close> has exactly two entries.\<close>

fun SBG_generate_probabilities :: "int \<Rightarrow> real list \<Rightarrow> py_error + real list" where
  "SBG_generate_probabilities periods [alpha, beta] = Inr (sbg_loop alpha beta (nat periods))"
| "SBG_generate_probabilities periods _ = Inl ValueError"

text \<open>The loop of \<^verbatim>\<open>SBGModel.survivor\<close>: \<^verbatim>\<open>s = s - probabilities[i]\<close>.\<close>

fun sbg_subtract :: "real list \<Rightarrow> real \<Rightarrow> nat list \<Rightarrow> py_error + real" where
  "sbg_subtract probabilities s [] = Inr s"
| "sbg_subtract probabilities s (i # is) =
     (if i < length probabilities then sbg_subtract probabilities (s - probabilities ! i) is
      else Inl IndexError)"

text \<open>\<^verbatim>\<open>probabilities = probabilities or self.generate_probabilities(t + 1, params)\<close>: a
  missing or empty list is replaced.\<close>

definition SBG_survivor :: "int \<Rightarrow> real list \<Rightarrow> real list option \<Rightarrow> py_error + real" where
  "SBG_survivor t params probabilities =
     (case (case probabilities of
              Some (p # ps) \<Rightarrow> Inr (p # ps)
            | _ \<Rightarrow> SBG_generate_probabilities (t + 1) params) of
        Inl e \<Rightarrow> Inl e
      | Inr [] \<Rightarrow> Inl IndexError
      | Inr (p0 # ps) \<Rightarrow> sbg_subtract (p0 # ps) (1 - p0) [1..<nat (t + 1)])"

definition SBGModel :: "string \<Rightarrow> real list option \<Rightarrow> ltv_model" where
  "SBGModel meth initial =
     \<lparr> optimization_method = meth,
       initial_params = initial,
       param_names = [''alpha'', ''beta''],
       bounds = [(0.0001, 10000), (0.0001, 10000)],
       survivor = SBG_survivor,
       generate_probabilities = SBG_generate_probabilities \<rparr>"

subsection \<open>The shifted-beta-geometric probabilities in binary64\<close>













subsection \<open>The beta-discrete-Weibull model\<close>

text \<open>
  \<^verbatim>\<open>scipy.special.gammaln\<close> is the logarithm of the absolute value of the Gamma function.
  On the positive reals, where the model evaluates it, that is \<open>ln \<Gamma>\<close>, given here by
  Euler's infinite product
  \<open>\<Gamma>(x) = (1 / x) \<Prod>\<^bsub>k \<ge> 1\<^esub> (1 + 1 / k)\<^bsup>x\<^esup> / (1 + x / k)\<close>,
  logarithm taken factor by factor. The series converges for every \<open>x > 0\<close>
  (\<open>summable_gammaln_term\<close> below), it is \<open>0\<close> at \<open>1\<close> and satisfies
  \<open>ln \<Gamma>(x + 1) = ln \<Gamma>(x) + ln x\<close> (\<open>gammaln_one\<close>, \<open>gammaln_plus_one\<close>).
\<close>

definition gammaln_term :: "real \<Rightarrow> nat \<Rightarrow> real" where
  "gammaln_term x k = x * ln (1 + 1 / real (Suc k)) - ln (1 + x / real (Suc k))"

definition gammaln :: "real \<Rightarrow> real" where
  "gammaln x = (\<Sum>k. gammaln_term x k) - ln x"

text \<open>
  \<^verbatim>\<open>alpha, beta, c = params\<close> raises unless \<^verbatim>\<open>params\<close> has exactly three entries; the
  argument \<^verbatim>\<open>probabilities\<close> is not used. \<^verbatim>\<open>(t+1)**c\<close> is a power with a real exponent,
  \<^term>\<open>(powr)\<close> for the positive base that every \<^verbatim>\<open>t >= 0\<close> gives. This is the value
  in exact arithmetic; the rounding of the four \<^verbatim>\<open>gammaln\<close> values and of their sum in
  binary64 is not modelled.
\<close>

fun BDW_survivor :: "int \<Rightarrow> real list \<Rightarrow> real list option \<Rightarrow> py_error + real" where
  "BDW_survivor t [alpha, beta, c] probabilities =
     Inr (exp (gammaln (alpha + beta) + gammaln (beta + real_of_int (t + 1) powr c)
               - gammaln beta - gammaln (alpha + beta + real_of_int (t + 1) powr c)))"
| "BDW_survivor t _ probabilities = Inl ValueError"

text \<open>\<^verbatim>\<open>BDWModel.generate_probabilities\<close>: \<^verbatim>\<open>self.predicted_survival(periods, params)\<close>,
  which for this class is the comprehension over \<^verbatim>\<open>BDWModel.survivor\<close>, then
  \<^verbatim>\<open>self.survival_rates\<close>.\<close>

definition BDW_generate_probabilities :: "int \<Rightarrow> real list \<Rightarrow> py_error + real list" where
  "BDW_generate_probabilities periods params =
     (case comprehension (\<lambda>i. BDW_survivor i params None) (range2 0 periods) of
        Inl e \<Rightarrow> Inl e
      | Inr survivor_rates \<Rightarrow> survival_rates survivor_rates)"

definition BDWModel :: "string \<Rightarrow> real list option \<Rightarrow> ltv_model" where
  "BDWModel meth initial =
     \<lparr> optimization_method = meth,
       initial_params = initial,
       param_names = [''alpha'', ''beta'', ''c''],
       bounds = [(0.0001, 10000), (0.0001, 10000), (0.0001, 3)],
       survivor = BDW_survivor,
       generate_probabilities = BDW_generate_probabilities \<rparr>"

subsection \<open>Preprocessing\<close>

text \<open>The input of \<^verbatim>\<open>fit\<close>: a flat sequence of numbers or a sequence of cohorts.\<close>

datatype data = Flat "real list" | Nested "real list list"

text \<open>\<^verbatim>\<open>hasattr(data[0], '__iter__')\<close>; \<^verbatim>\<open>data[0]\<close> raises on an empty sequence.\<close>

fun first_is_iterable :: "data \<Rightarrow> py_error + bool" where
  "first_is_iterable (Flat []) = Inl IndexError"
| "first_is_iterable (Flat (d # ds)) = Inr False"
| "first_is_iterable (Nested []) = Inl IndexError"
| "first_is_iterable (Nested (c # cs)) = Inr True"

text \<open>The second half of \<^verbatim>\<open>preprocess_data\<close>, on a flat sequence:
  \<^verbatim>\<open>(np.array(data) / data[0])[1:]\<close> when \<^verbatim>\<open>data[0] > 1\<close>, \<^verbatim>\<open>data[1:]\<close> when
  \<^verbatim>\<open>data[0] == 1\<close>.\<close>

fun preprocess_1d :: "real list \<Rightarrow> py_error + data" where
  "preprocess_1d [] = Inl IndexError"
| "preprocess_1d (d # ds) =
     Inr (Flat (if d > 1 then drop 1 (map (\<lambda>y. y / d) (d # ds))
                else if d = 1 then drop 1 (d # ds)
                else d # ds))"

fun preprocess_data :: "data \<Rightarrow> py_error + data" where
  "preprocess_data (Nested []) = Inl IndexError"
| "preprocess_data (Nested [cohort]) = preprocess_1d cohort"
| "preprocess_data (Nested cohorts) = Inr (Nested cohorts)"
| "preprocess_data (Flat ds) = preprocess_1d ds"

subsection \<open>The optimizer wrapper\<close>

text \<open>
  The result object of \<^verbatim>\<open>scipy.optimize.minimize\<close>, with the four attributes the program
  reads. The minimizer itself is a collaborator of the program, not part of it: it is a
  parameter of \<open>optimize\<close> and \<open>fit\<close>, called with the objective, the initial guess, the
  bounds and the name of the algorithm, and it returns a result or raises. So is the random source
  \<^verbatim>\<open>np.random.rand\<close>.
\<close>

record optimize_result =
  res_x :: "real list"
  res_status :: int
  res_fun :: real
  res_message :: string

type_synonym objective = "real list \<Rightarrow> py_error + real"

type_synonym minimizer =
  "objective \<Rightarrow> real list \<Rightarrow> (real \<times> real) list \<Rightarrow> string \<Rightarrow> py_error + optimize_result"

text \<open>\<^verbatim>\<open>np.isclose(a, b)\<close> with its default tolerances \<^verbatim>\<open>rtol=1e-05\<close>,
  \<^verbatim>\<open>atol=1e-08\<close>.\<close>

definition isclose :: "real \<Rightarrow> real \<Rightarrow> bool" where
  "isclose a b = (\<bar>a - b\<bar> \<le> 0.00000001 + 0.00001 * \<bar>b\<bar>)"

text \<open>\<^verbatim>\<open>np.isclose(xs, bs).any()\<close> on two one-dimensional arrays: numpy broadcasts an
  array of length one and raises on any other difference of lengths.\<close>

definition isclose_any :: "real list \<Rightarrow> real list \<Rightarrow> py_error + bool" where
  "isclose_any xs bs =
     (if length xs = length bs then Inr (list_ex (\<lambda>(x, b). isclose x b) (zip xs bs))
      else if length xs = 1 then Inr (list_ex (\<lambda>b. isclose (hd xs) b) bs)
      else if length bs = 1 then Inr (list_ex (\<lambda>x. isclose x (hd bs)) xs)
      else Inl ValueError)"

definition negate :: "py_error + real \<Rightarrow> py_error + real" where
  "negate r = (case r of Inl e \<Rightarrow> Inl e | Inr v \<Rightarrow> Inr (- v))"

text \<open>
  The objective \<^verbatim>\<open>func\<close> that \<^verbatim>\<open>optimize\<close> builds. For a single cohort the survivors
  are computed once, before the minimizer runs. \<^verbatim>\<open>fit\<close> always passes the flag that
  fits the data; on the other two combinations Python fails on the type of
  \<^verbatim>\<open>data[0]\<close>: \<^verbatim>\<open>1 - data[0]\<close> on a list at once, \<^verbatim>\<open>len(data[0])\<close> on a number when the
  objective is called past its guard.
\<close>

fun make_objective :: "ltv_model \<Rightarrow> data \<Rightarrow> bool \<Rightarrow> py_error + objective" where
  "make_objective m (Nested cohorts) True =
     Inr (\<lambda>x. negate (log_likelihood_multi_cohort m x cohorts))"
| "make_objective m (Flat ds) False =
     (case survival_rates ds of
        Inl e \<Rightarrow> Inl e
      | Inr survivors \<Rightarrow> Inr (\<lambda>x. negate (log_likelihood m x ds (Some survivors))))"
| "make_objective m (Flat ds) True =
     Inr (\<lambda>x. negate (if any_nonpositive x then Inr (- 1000)
                        else Inl (if ds = [] then IndexError else TypeError)))"
| "make_objective m (Nested cohorts) False =
     Inl (if cohorts = [] then IndexError else TypeError)"

text \<open>\<^verbatim>\<open>self.initial_params or np.random.rand(len(self.param_names))\<close>: a missing or
  empty initial vector is replaced by a random draw.\<close>

definition initial_guess :: "(nat \<Rightarrow> real list) \<Rightarrow> ltv_model \<Rightarrow> real list" where
  "initial_guess rand m =
     (case initial_params m of
        Some (p # ps) \<Rightarrow> p # ps
      | _ \<Rightarrow> rand (length (param_names m)))"

definition parameters_inappropriate :: py_error where
  "parameters_inappropriate =
     Exception [''Optimization Failed: Found parameters are inappropriate.'']"

text \<open>\<^verbatim>\<open>optimize\<close>. The two tests of the \<^verbatim>\<open>if\<close> are evaluated left to right.\<close>

definition optimize ::
  "minimizer \<Rightarrow> (nat \<Rightarrow> real list) \<Rightarrow> ltv_model \<Rightarrow> data \<Rightarrow> bool
     \<Rightarrow> py_error + optimize_result" where
  "optimize minimize rand m data is_multi_cohort =
     (case make_objective m data is_multi_cohort of
        Inl e \<Rightarrow> Inl e
      | Inr func \<Rightarrow>
     (case minimize func (initial_guess rand m) (bounds m) (optimization_method m) of
        Inl e \<Rightarrow> Inl e
      | Inr res \<Rightarrow>
     (case isclose_any (res_x res) (map fst (bounds m)) of
        Inl e \<Rightarrow> Inl e
      | Inr True \<Rightarrow> Inl parameters_inappropriate
      | Inr False \<Rightarrow>
     (case isclose_any (res_x res) (map snd (bounds m)) of
        Inl e \<Rightarrow> Inl e
      | Inr True \<Rightarrow> Inl parameters_inappropriate
      | Inr False \<Rightarrow> Inr res))))"

subsection \<open>Fitting\<close>

text \<open>The values of the dictionary that \<^verbatim>\<open>fit\<close> returns: numbers and one list.\<close>

datatype fit_value = Number real | Curve "real list"

text \<open>A dictionary comprehension over pairs: a later pair with the same key wins.\<close>

definition dict_of :: "('k \<times> 'v) list \<Rightarrow> ('k \<rightharpoonup> 'v)" where
  "dict_of kvs = foldl (\<lambda>d (k, v). d(k \<mapsto> v)) Map.empty kvs"

text \<open>
  \<^verbatim>\<open>fit\<close>: preprocessing, the test of \<^verbatim>\<open>data[0]\<close>, the optimizer, the test of the exit
  status, then the dictionary: the parameters by name, \<^verbatim>\<open>retention_curve\<close> and
  \<^verbatim>\<open>loss\<close>.
\<close>

definition fit ::
  "minimizer \<Rightarrow> (nat \<Rightarrow> real list) \<Rightarrow> ltv_model \<Rightarrow> data \<Rightarrow> int
     \<Rightarrow> py_error + (string \<rightharpoonup> fit_value)" where
  "fit minimize rand m data periods =
     (case preprocess_data data of
        Inl e \<Rightarrow> Inl e
      | Inr data' \<Rightarrow>
     (case first_is_iterable data' of
        Inl e \<Rightarrow> Inl e
      | Inr is_multi_cohort \<Rightarrow>
     (case optimize minimize rand m data' is_multi_cohort of
        Inl e \<Rightarrow> Inl e
      | Inr res \<Rightarrow>
          if res_status res \<noteq> 0
          then Inl (Exception [''Optimization Failed:'', res_message res])
          else
            (case predicted_survival m periods (res_x res) of
               Inl e \<Rightarrow> Inl e
             | Inr curve \<Rightarrow>
                 Inr ((dict_of (zip (param_names m) (map Number (res_x res))))
                        (''retention_curve'' \<mapsto> Curve ([1] @ curve),
                         ''loss'' \<mapsto> Number (res_fun res)))))))"

subsection \<open>Closed forms of the shifted-beta-geometric sequences\<close>

text \<open>Used in the proofs only: the survivor function as a product, and the churn
  probability of period \<open>t\<close> as a fraction of the survivors of the periods before.\<close>

definition sbg_S :: "real \<Rightarrow> real \<Rightarrow> nat \<Rightarrow> real" where
  "sbg_S alpha beta n = (\<Prod>i<n. (beta + real i) / (alpha + beta + real i))"

definition sbg_p :: "real \<Rightarrow> real \<Rightarrow> nat \<Rightarrow> real" where
  "sbg_p alpha beta t = alpha / (alpha + beta + real t) * sbg_S alpha beta t"


subsection \<open>Stand-ins for the collaborators\<close>

text \<open>
  Used only to apply the theorems about \<open>fit\<close> at concrete inputs: a minimizer that
  evaluates the objective at a fixed point \<open>x\<close> and reports success there with the
  value it found (the contract of \<^verbatim>\<open>scipy.optimize.minimize\<close>: \<^verbatim>\<open>fun\<close> is the objective
  at \<^verbatim>\<open>x\<close>), a minimizer that raises as soon as it is called, and a random source that
  always draws \<open>1/2\<close>.
\<close>

definition reporting_minimizer :: "real list \<Rightarrow> minimizer" where
  "reporting_minimizer x func x0 bnds meth =
     (case func x of
        Inl e \<Rightarrow> Inl e
      | Inr v \<Rightarrow>
          Inr \<lparr> res_x = x, res_status = 0, res_fun = v,
                res_message = ''Optimization terminated successfully.'' \<rparr>)"

definition raising_minimizer :: minimizer where
  "raising_minimizer func x0 bnds meth = Inl (Exception [''minimize was called''])"

definition half_rand :: "nat \<Rightarrow> real list" where
  "half_rand n = replicate n (1 / 2)"

section \<open>Properties of the shifted-beta-geometric loop\<close>

lemma sbg_loop_0: "sbg_loop alpha beta 0 = [alpha / (alpha + beta)]"
  by (simp add: sbg_loop_def)

lemma sbg_loop_1: "sbg_loop alpha beta (Suc 0) = [alpha / (alpha + beta)]"
  by (simp add: sbg_loop_def)

lemma sbg_loop_Suc:
  "0 < n \<Longrightarrow> sbg_loop alpha beta (Suc n) = sbg_append alpha beta (sbg_loop alpha beta n) n"
  by (simp add: sbg_loop_def)

lemma length_sbg_loop: "length (sbg_loop alpha beta n) = max 1 n"
proof (induction n)
  case 0
  show ?case by (simp add: sbg_loop_0)
next
  case (Suc n)
  show ?case
  proof (cases "n = 0")
    case True
    then show ?thesis by (simp add: sbg_loop_1)
  next
    case False
    with Suc show ?thesis by (simp add: sbg_loop_Suc sbg_append_def)
  qed
qed

lemma sbg_S_Suc:
  "sbg_S alpha beta (Suc n) = sbg_S alpha beta n * ((beta + real n) / (alpha + beta + real n))"
  by (simp add: sbg_S_def)

lemma sbg_loop_nth: "i < max 1 n \<Longrightarrow> sbg_loop alpha beta n ! i = sbg_p alpha beta i"
proof (induction n arbitrary: i)
  case 0
  then show ?case by (simp add: sbg_loop_0 sbg_p_def sbg_S_def)
next
  case (Suc n)
  show ?case
  proof (cases "n = 0")
    case True
    with Suc.prems show ?thesis by (simp add: sbg_loop_1 sbg_p_def sbg_S_def)
  next
    case False
    then obtain k where k: "n = Suc k" by (cases n) auto
    have len: "length (sbg_loop alpha beta n) = n"
      using False by (simp add: length_sbg_loop)
    show ?thesis
    proof (cases "i < n")
      case True
      then show ?thesis
        using False Suc.IH [of i] len by (simp add: sbg_loop_Suc sbg_append_def nth_append)
    next
      case False
      with Suc.prems have i: "i = n" by simp
      have prev: "sbg_loop alpha beta n ! k = sbg_p alpha beta k"
        using Suc.IH [of k] k by simp
      show ?thesis
        using \<open>n \<noteq> 0\<close> len prev
        by (simp add: i k sbg_loop_Suc sbg_append_def nth_append sbg_p_def sbg_S_Suc)
    qed
  qed
qed


lemma sbg_S_pos: "0 < alpha \<Longrightarrow> 0 < beta \<Longrightarrow> 0 < sbg_S alpha beta n"
  unfolding sbg_S_def by (intro prod_pos) (simp add: add_pos_nonneg)

lemma sbg_p_pos: "0 < alpha \<Longrightarrow> 0 < beta \<Longrightarrow> 0 < sbg_p alpha beta t"
  unfolding sbg_p_def by (intro mult_pos_pos divide_pos_pos sbg_S_pos) (simp_all add: add_pos_nonneg)

lemma sbg_p_telescope:
  assumes "0 < alpha" "0 < beta"
  shows "sbg_p alpha beta t = sbg_S alpha beta t - sbg_S alpha beta (Suc t)"
proof -
  have nz: "alpha + beta + real t \<noteq> 0"
    using assms by (simp add: add_pos_nonneg pos_add_strict less_imp_neq [symmetric])
  show ?thesis
    using nz by (simp add: sbg_p_def sbg_S_Suc field_simps)
qed

lemma sbg_sum_p:
  assumes "0 < alpha" "0 < beta"
  shows "(\<Sum>i<n. sbg_p alpha beta i) = 1 - sbg_S alpha beta n"
proof (induction n)
  case 0
  show ?case by (simp add: sbg_S_def)
next
  case (Suc n)
  then show ?case by (simp add: sbg_p_telescope [OF assms])
qed

lemma sbg_subtract_all:
  "\<forall>i\<in>set is. i < length ps \<Longrightarrow> sbg_subtract ps s is = Inr (s - sum_list (map ((!) ps) is))"
  by (induction "is" arbitrary: s) simp_all

lemma SBG_survivor_sum:
  "SBG_survivor t [alpha, beta] None = Inr (1 - (\<Sum>i\<le>nat t. sbg_p alpha beta i))"
proof -
  let ?n = "nat (t + 1)"
  let ?ps = "sbg_loop alpha beta ?n"
  obtain p0 rest where ps: "?ps = p0 # rest"
    by (cases ?ps) (use length_sbg_loop [of alpha beta ?n] in auto)
  have p0: "p0 = sbg_p alpha beta 0"
    using sbg_loop_nth [of 0 ?n alpha beta] ps by simp
  have "sbg_subtract ?ps (1 - p0) [1..<?n]
      = Inr (1 - p0 - sum_list (map ((!) ?ps) [1..<?n]))"
    by (rule sbg_subtract_all) (simp add: length_sbg_loop)
  also have "map ((!) ?ps) [1..<?n] = map (sbg_p alpha beta) [1..<?n]"
    by (rule map_cong) (simp_all add: sbg_loop_nth)
  also have "sum_list (map (sbg_p alpha beta) [1..<?n]) = (\<Sum>i=1..<?n. sbg_p alpha beta i)"
    by (simp add: interv_sum_list_conv_sum_set_nat)
  also have "1 - p0 - (\<Sum>i=1..<?n. sbg_p alpha beta i) = 1 - (\<Sum>i\<le>nat t. sbg_p alpha beta i)"
  proof (cases "0 \<le> t")
    case True
    then have n: "?n = Suc (nat t)" by (simp add: nat_add_distrib)
    have "{..nat t} = insert 0 {1..<Suc (nat t)}" by auto
    then show ?thesis by (simp add: n p0)
  next
    case False
    then show ?thesis by (simp add: p0)
  qed
  finally show ?thesis
    by (simp add: SBG_survivor_def ps)
qed

lemma SBG_survivor_closed:
  assumes "0 < alpha" "0 < beta"
  shows "SBG_survivor t [alpha, beta] None = Inr (sbg_S alpha beta (Suc (nat t)))"
  using sbg_sum_p [OF assms, of "Suc (nat t)"]
  by (simp add: SBG_survivor_sum lessThan_Suc_atMost)


section \<open>Properties of the log-gamma series\<close>

lemma summable_inverse_square: "summable (\<lambda>k. 1 / (real (Suc k))\<^sup>2)"
proof -
  have tel: "summable (\<lambda>n. inverse (real (Suc n)) - inverse (real (Suc (Suc n))))"
    by (rule telescope_summable' [OF LIMSEQ_inverse_real_of_nat])
  have "summable (\<lambda>n. 1 / (real (Suc (Suc n)))\<^sup>2)"
  proof (rule summable_comparison_test' [OF tel, of 0])
    fix n :: nat
    have "1 / (real (Suc (Suc n)))\<^sup>2 \<le> 1 / (real (Suc n) * real (Suc (Suc n)))"
      by (intro divide_left_mono) (simp_all add: power2_eq_square)
    also have "\<dots> = inverse (real (Suc n)) - inverse (real (Suc (Suc n)))"
      by (simp add: field_simps)
    finally show "norm (1 / (real (Suc (Suc n)))\<^sup>2)
        \<le> inverse (real (Suc n)) - inverse (real (Suc (Suc n)))"
      by simp
  qed
  then show ?thesis
    by (subst (asm) summable_Suc_iff)
qed

lemma gammaln_term_bounds:
  assumes x: "0 < x" and k: "x \<le> real (Suc k)"
  shows "\<bar>gammaln_term x k\<bar> \<le> (x\<^sup>2 + x) * (1 / (real (Suc k))\<^sup>2)"
proof -
  define h where "h = 1 / real (Suc k)"
  have h: "0 < h" "h \<le> 1" by (simp_all add: h_def)
  have xh: "0 \<le> x * h" "x * h \<le> 1"
    using x k by (simp_all add: h_def field_simps)
  have u1: "ln (1 + h) \<le> h" using h by (simp add: ln_add_one_self_le_self)
  have l1: "h - h\<^sup>2 \<le> ln (1 + h)" using h by (simp add: ln_one_plus_pos_lower_bound)
  have u2: "ln (1 + x * h) \<le> x * h" using xh by (simp add: ln_add_one_self_le_self)
  have l2: "x * h - (x * h)\<^sup>2 \<le> ln (1 + x * h)"
    using xh by (simp add: ln_one_plus_pos_lower_bound)
  have t: "gammaln_term x k = x * ln (1 + h) - ln (1 + x * h)"
    by (simp add: gammaln_term_def h_def)
  have "x * ln (1 + h) \<le> x * h" using u1 x by simp
  then have up: "gammaln_term x k \<le> x\<^sup>2 * h\<^sup>2"
    using l2 by (simp add: t power_mult_distrib)
  have "x * (h - h\<^sup>2) \<le> x * ln (1 + h)" using l1 x by simp
  then have lo: "- (x * h\<^sup>2) \<le> gammaln_term x k"
    using u2 by (simp add: t algebra_simps)
  have nn: "0 \<le> x * h\<^sup>2" "0 \<le> x\<^sup>2 * h\<^sup>2" using x by simp_all
  have "(x\<^sup>2 + x) * h\<^sup>2 = x\<^sup>2 * h\<^sup>2 + x * h\<^sup>2"
    by (simp add: algebra_simps)
  then have "\<bar>gammaln_term x k\<bar> \<le> (x\<^sup>2 + x) * h\<^sup>2"
    using up lo nn by linarith
  then show ?thesis
    by (simp add: h_def power_divide)
qed

lemma summable_gammaln_term:
  assumes "0 < x"
  shows "summable (gammaln_term x)"
proof -
  obtain N :: nat where N: "x \<le> real N"
    using real_arch_simple by blast
  have g: "summable (\<lambda>k. (x\<^sup>2 + x) * (1 / (real (Suc k))\<^sup>2))"
    by (rule summable_mult [OF summable_inverse_square])
  show ?thesis
  proof (rule summable_comparison_test' [OF g, of N])
    fix n assume "N \<le> n"
    then have "x \<le> real (Suc n)" using N by simp
    then show "norm (gammaln_term x n) \<le> (x\<^sup>2 + x) * (1 / (real (Suc n))\<^sup>2)"
      using gammaln_term_bounds [OF assms] by simp
  qed
qed

lemma ln_increment_antimono:
  fixes u v a :: real
  assumes "0 < u" "u \<le> v" "0 \<le> a"
  shows "ln (v + a) - ln v \<le> ln (u + a) - ln u"
proof -
  have v: "0 < v" using assms by linarith
  have "ln (v + a) - ln v = ln ((v + a) / v)"
    using v assms by (simp add: ln_div)
  also have "\<dots> \<le> ln ((u + a) / u)"
  proof -
    have "(v + a) / v = 1 + a / v" using v by (simp add: field_simps)
    moreover have "(u + a) / u = 1 + a / u" using assms by (simp add: field_simps)
    moreover have "a / v \<le> a / u" using assms by (simp add: frac_le)
    moreover have "0 < 1 + a / v" using v assms by (simp add: add_pos_nonneg)
    ultimately show ?thesis by simp
  qed
  also have "\<dots> = ln (u + a) - ln u"
    using assms by (simp add: ln_div)
  finally show ?thesis .
qed

lemma gammaln_term_increment:
  assumes "0 < y" "y \<le> z" "0 \<le> a"
  shows "gammaln_term z k - gammaln_term (z + a) k \<le> gammaln_term y k - gammaln_term (y + a) k"
proof -
  let ?K = "real (Suc k)"
  have "ln (1 + z / ?K + a / ?K) - ln (1 + z / ?K) \<le> ln (1 + y / ?K + a / ?K) - ln (1 + y / ?K)"
    using assms by (intro ln_increment_antimono) (simp_all add: add_pos_nonneg divide_right_mono)
  then show ?thesis
    by (simp add: gammaln_term_def add_divide_distrib algebra_simps)
qed

lemma gammaln_increment:
  assumes "0 < y" "y \<le> z" "0 < a"
  shows "gammaln z - gammaln (z + a) \<le> gammaln y - gammaln (y + a)"
proof -
  have s: "summable (gammaln_term y)" "summable (gammaln_term (y + a))"
    "summable (gammaln_term z)" "summable (gammaln_term (z + a))"
    using assms by (simp_all add: summable_gammaln_term)
  have "(\<Sum>k. gammaln_term z k) - (\<Sum>k. gammaln_term (z + a) k)
      = (\<Sum>k. gammaln_term z k - gammaln_term (z + a) k)"
    by (rule suminf_diff [OF s(3,4)])
  also have "\<dots> \<le> (\<Sum>k. gammaln_term y k - gammaln_term (y + a) k)"
    using assms
    by (intro suminf_le summable_diff s gammaln_term_increment) simp_all
  also have "\<dots> = (\<Sum>k. gammaln_term y k) - (\<Sum>k. gammaln_term (y + a) k)"
    by (rule suminf_diff [OF s(1,2), symmetric])
  finally have sums: "(\<Sum>k. gammaln_term z k) - (\<Sum>k. gammaln_term (z + a) k)
      \<le> (\<Sum>k. gammaln_term y k) - (\<Sum>k. gammaln_term (y + a) k)" .
  have "ln (z + a) - ln z \<le> ln (y + a) - ln y"
    using assms by (intro ln_increment_antimono) simp_all
  with sums show ?thesis
    by (simp add: gammaln_def)
qed


lemma gammaln_one: "gammaln 1 = 0"
  by (simp add: gammaln_def gammaln_term_def)

lemma ln_ratio_tendsto_0:
  fixes x :: real
  assumes "0 < x"
  shows "(\<lambda>n. ln (real (Suc n) + x) - ln (real (Suc n))) \<longlonglongrightarrow> 0"
proof -
  have "(\<lambda>n. x * inverse (real (Suc n))) \<longlonglongrightarrow> x * 0"
    by (intro tendsto_mult_left LIMSEQ_inverse_real_of_nat)
  then have "(\<lambda>n. 1 + x * inverse (real (Suc n))) \<longlonglongrightarrow> 1 + x * 0"
    by (intro tendsto_add tendsto_const)
  then have "(\<lambda>n. ln (1 + x * inverse (real (Suc n)))) \<longlonglongrightarrow> ln (1 + x * 0)"
    by (intro tendsto_ln) simp_all
  moreover have "ln (1 + x * inverse (real (Suc n))) = ln (real (Suc n) + x) - ln (real (Suc n))"
    for n
  proof -
    have "1 + x * inverse (real (Suc n)) = (real (Suc n) + x) / real (Suc n)"
      by (simp add: field_simps)
    then show ?thesis
      using assms by (simp add: ln_div add_pos_pos del: of_nat_Suc)
  qed
  ultimately show ?thesis by simp
qed

lemma gammaln_term_shift:
  fixes x :: real
  assumes "0 < x"
  shows "gammaln_term (x + 1) k - gammaln_term x k
       = (ln (real (Suc k) + x) - ln (real (Suc k)))
         - (ln (real (Suc (Suc k)) + x) - ln (real (Suc (Suc k))))"
proof -
  let ?K = "real (Suc k)"
  have K: "0 < ?K" by simp
  have a: "ln (1 + 1 / ?K) = ln (?K + 1) - ln ?K"
  proof -
    have "1 + 1 / ?K = (?K + 1) / ?K" by (simp add: field_simps)
    then show ?thesis using K by (simp add: ln_div del: of_nat_Suc)
  qed
  have b: "ln (1 + y / ?K) = ln (?K + y) - ln ?K" if "0 < y" for y
  proof -
    have "1 + y / ?K = (?K + y) / ?K" by (simp add: field_simps)
    then show ?thesis using K that by (simp add: ln_div add_pos_pos del: of_nat_Suc)
  qed
  have c: "real (Suc (Suc k)) = ?K + 1" by simp
  show ?thesis
    unfolding gammaln_term_def c a b [OF assms] b [of "x + 1", OF add_pos_pos [OF assms zero_less_one]]
    by (simp add: algebra_simps)
qed

lemma gammaln_plus_one:
  assumes "0 < x"
  shows "gammaln (x + 1) = gammaln x + ln x"
proof -
  let ?g = "\<lambda>n. ln (real (Suc n) + x) - ln (real (Suc n))"
  have "(\<lambda>n. ?g n - ?g (Suc n)) sums (?g 0 - 0)"
    by (rule telescope_sums' [OF ln_ratio_tendsto_0 [OF assms]])
  then have "(\<lambda>k. gammaln_term (x + 1) k - gammaln_term x k) sums ln (1 + x)"
    by (simp add: gammaln_term_shift [OF assms])
  then have "(\<Sum>k. gammaln_term (x + 1) k - gammaln_term x k) = ln (1 + x)"
    by (rule sums_unique [symmetric])
  moreover have "(\<Sum>k. gammaln_term (x + 1) k - gammaln_term x k)
      = (\<Sum>k. gammaln_term (x + 1) k) - (\<Sum>k. gammaln_term x k)"
    using assms by (intro suminf_diff [symmetric] summable_gammaln_term) simp_all
  ultimately show ?thesis
    by (simp add: gammaln_def add.commute)
qed


section \<open>Comprehensions and ranges\<close>

lemma range2_0_int: "range2 0 (int n) = map int [0..<n]"
proof (induction n)
  case 0
  show ?case by (simp add: range2_def)
next
  case (Suc n)
  have "[0..int n] = [0..int n - 1] @ [int n]"
    by (rule upto_rec2) simp
  with Suc show ?case
    by (simp add: range2_def)
qed

lemma range2_0: "range2 0 periods = map int [0..<nat periods]"
proof (cases "0 \<le> periods")
  case True
  then show ?thesis using range2_0_int [of "nat periods"] by simp
next
  case False
  then show ?thesis by (simp add: range2_def)
qed

lemma comprehension_map:
  "(\<And>i. i \<in> set is \<Longrightarrow> f i = Inr (g i)) \<Longrightarrow> comprehension f is = Inr (map g is)"
  by (induction "is") simp_all

lemma predicted_survival_map:
  assumes "\<And>i. 0 \<le> i \<Longrightarrow> survivor m i params None = Inr (g i)"
  shows "predicted_survival m periods params = Inr (map (\<lambda>i. g (int i)) [0..<nat periods])"
proof -
  have "comprehension (\<lambda>i. survivor m i params None) (range2 0 periods)
      = Inr (map g (range2 0 periods))"
    by (rule comprehension_map) (simp add: assms range2_def)
  then show ?thesis
    by (simp add: predicted_survival_def range2_0 comp_def)
qed

lemma sbg_S_le_1: "0 < alpha \<Longrightarrow> 0 < beta \<Longrightarrow> sbg_S alpha beta n \<le> 1"
  using sbg_sum_p [of alpha beta n] sum_nonneg [of "{..<n}" "sbg_p alpha beta"]
    sbg_p_pos [of alpha beta]
  by (simp add: less_imp_le)

section \<open>Survivor curves of the two models\<close>

lemma sbg_S_antimono_step:
  assumes "0 < alpha" "0 < beta"
  shows "sbg_S alpha beta (Suc n) \<le> sbg_S alpha beta n"
proof -
  have "(beta + real n) / (alpha + beta + real n) \<le> 1"
    using assms by (simp add: add_pos_nonneg)
  then have "sbg_S alpha beta n * ((beta + real n) / (alpha + beta + real n))
      \<le> sbg_S alpha beta n * 1"
    using sbg_S_pos [OF assms, of n] by (intro mult_left_mono) simp_all
  then show ?thesis by (simp add: sbg_S_Suc)
qed

lemma SBG_survivor_step:
  assumes "0 < alpha" "0 < beta" "0 \<le> t"
  shows "\<exists>s s'. SBG_survivor t [alpha, beta] None = Inr s
            \<and> SBG_survivor (t + 1) [alpha, beta] None = Inr s' \<and> s' \<le> s"
proof -
  have "nat (t + 1) = Suc (nat t)" using assms(3) by simp
  then show ?thesis
    using sbg_S_antimono_step [OF assms(1,2), of "Suc (nat t)"]
    by (simp add: SBG_survivor_closed [OF assms(1,2)])
qed

lemma BDW_survivor_step:
  assumes "0 < alpha" "0 < beta" "0 \<le> c" "0 \<le> t"
  shows "\<exists>s s'. BDW_survivor t [alpha, beta, c] None = Inr s
            \<and> BDW_survivor (t + 1) [alpha, beta, c] None = Inr s' \<and> s' \<le> s"
proof -
  let ?x = "real_of_int (t + 1) powr c"
  let ?x' = "real_of_int (t + 1 + 1) powr c"
  have "?x \<le> ?x'"
    using assms(3,4) by (intro powr_mono2) simp_all
  then have "gammaln (beta + ?x') - gammaln (beta + ?x' + alpha)
      \<le> gammaln (beta + ?x) - gammaln (beta + ?x + alpha)"
    using assms(1,2) by (intro gammaln_increment) (simp_all add: add_pos_nonneg)
  then show ?thesis
    by (simp add: algebra_simps)
qed

lemma predicted_survival_nonincreasing:
  assumes step: "\<And>t. 0 \<le> t \<Longrightarrow> \<exists>s s'. survivor m t params None = Inr s
            \<and> survivor m (t + 1) params None = Inr s' \<and> s' \<le> s"
  shows "\<exists>ps. predicted_survival m periods params = Inr ps \<and> length ps = nat periods
           \<and> (\<forall>i j. i \<le> j \<and> j < length ps \<longrightarrow> ps ! j \<le> ps ! i)"
proof -
  define g where "g t = projr (survivor m t params None)" for t
  have val: "survivor m t params None = Inr (g t)" if "0 \<le> t" for t
    using step [OF that] by (auto simp: g_def)
  have dec: "g (t + 1) \<le> g t" if "0 \<le> t" for t
    using step [OF that] by (auto simp: g_def)
  have mono: "g (int (i + k)) \<le> g (int i)" for i k
  proof (induction k)
    case 0
    show ?case by simp
  next
    case (Suc k)
    have "g (int (i + k) + 1) \<le> g (int (i + k))" by (rule dec) simp
    with Suc show ?case by (simp add: add.commute add.left_commute)
  qed
  have ps: "predicted_survival m periods params
      = Inr (map (\<lambda>i. g (int i)) [0..<nat periods])"
    by (rule predicted_survival_map) (rule val)
  have "g (int j) \<le> g (int i)" if "i \<le> j" for i j
    using mono [of i "j - i"] that by simp
  then show ?thesis
    by (simp add: ps)
qed

lemma SBG_within_bounds:
  assumes "list_all2 (\<lambda>p (lo, hi). lo \<le> p \<and> p \<le> hi) params (bounds (SBGModel meth initial))"
  obtains alpha beta where "params = [alpha, beta]" "0 < alpha" "0 < beta"
proof -
  from assms obtain alpha beta where p: "params = [alpha, beta]"
    and "0.0001 \<le> alpha" "0.0001 \<le> beta"
    by (auto simp: SBGModel_def list_all2_Cons2)
  moreover have "(0::real) < 0.0001" by simp
  ultimately have "0 < alpha" "0 < beta" by linarith+
  with p show ?thesis by (rule that)
qed

lemma BDW_within_bounds:
  assumes "list_all2 (\<lambda>p (lo, hi). lo \<le> p \<and> p \<le> hi) params (bounds (BDWModel meth initial))"
  obtains alpha beta c where "params = [alpha, beta, c]" "0 < alpha" "0 < beta" "0 < c"
proof -
  from assms obtain alpha beta c where p: "params = [alpha, beta, c]"
    and "0.0001 \<le> alpha" "0.0001 \<le> beta" "0.0001 \<le> c"
    by (auto simp: BDWModel_def list_all2_Cons2)
  moreover have "(0::real) < 0.0001" by simp
  ultimately have "0 < alpha" "0 < beta" "0 < c" by linarith+
  with p show ?thesis by (rule that)
qed

lemma survival_rates_Cons:
  "survival_rates (d # ds) = Inr ((1 - d) # map (\<lambda>k. (d # ds) ! k - ds ! k) [0..<length ds])"
proof -
  have "[1..<length (d # ds)] = map Suc [0..<length ds]"
    by (simp add: map_Suc_upt del: upt_Suc)
  then show ?thesis
    by (simp add: comp_def del: upt_Suc)
qed

lemma survival_rates_nth:
  assumes "xs \<noteq> []"
  shows "\<exists>sr. survival_rates xs = Inr sr \<and> length sr = length xs \<and> sr ! 0 = 1 - xs ! 0
           \<and> (\<forall>i. 0 < i \<and> i < length xs \<longrightarrow> sr ! i = xs ! (i - 1) - xs ! i)"
proof -
  from assms obtain d ds where xs: "xs = d # ds" by (cases xs) auto
  let ?sr = "(1 - d) # map (\<lambda>k. (d # ds) ! k - ds ! k) [0..<length ds]"
  have len: "length ?sr = length (d # ds)" by simp
  have first: "?sr ! 0 = 1 - (d # ds) ! 0" by simp
  have later: "\<forall>i. 0 < i \<and> i < length (d # ds) \<longrightarrow> ?sr ! i = (d # ds) ! (i - 1) - (d # ds) ! i"
  proof (intro allI impI)
    fix i assume "0 < i \<and> i < length (d # ds)"
    then obtain k where "i = Suc k" "k < length ds" by (cases i) auto
    then show "?sr ! i = (d # ds) ! (i - 1) - (d # ds) ! i" by (simp del: upt_Suc)
  qed
  show ?thesis
    unfolding xs survival_rates_Cons
    by (intro exI [of _ ?sr] conjI refl len first later)
qed

lemma SBG_roundtrip:
  assumes "1 \<le> n"
  shows "\<exists>ps probs. predicted_survival (SBGModel meth initial) n [alpha, beta] = Inr ps
           \<and> SBG_generate_probabilities n [alpha, beta] = Inr probs
           \<and> survival_rates ps = Inr probs \<and> length probs = nat n"
proof -
  let ?g = "\<lambda>t. 1 - (\<Sum>i\<le>nat t. sbg_p alpha beta i)"
  let ?ps = "map (\<lambda>i. ?g (int i)) [0..<nat n]"
  have n: "max (Suc 0) (nat n) = nat n" using assms by arith
  have ps: "predicted_survival (SBGModel meth initial) n [alpha, beta] = Inr ?ps"
    by (rule predicted_survival_map) (simp add: SBGModel_def SBG_survivor_sum)
  have "?ps \<noteq> []" using assms by simp
  then obtain sr where sr: "survival_rates ?ps = Inr sr" "length sr = length ?ps"
    "sr ! 0 = 1 - ?ps ! 0" "\<forall>i. 0 < i \<and> i < length ?ps \<longrightarrow> sr ! i = ?ps ! (i - 1) - ?ps ! i"
    using survival_rates_nth [of ?ps] by blast
  have "sr = sbg_loop alpha beta (nat n)"
  proof (rule nth_equalityI)
    show "length sr = length (sbg_loop alpha beta (nat n))"
      using sr(2) by (simp add: length_sbg_loop n)
  next
    fix i assume "i < length sr"
    then have i: "i < nat n" using sr(2) by simp
    show "sr ! i = sbg_loop alpha beta (nat n) ! i"
    proof (cases i)
      case 0
      then show ?thesis using sr(3) i by (simp add: sbg_loop_nth n)
    next
      case (Suc k)
      then have "sr ! i = ?ps ! k - ?ps ! Suc k"
        using sr(4) i by simp
      also have "\<dots> = sbg_p alpha beta (Suc k)"
        using i Suc by simp
      finally show ?thesis using i Suc by (simp add: sbg_loop_nth n)
    qed
  qed
  then show ?thesis
    using ps sr(1) by (simp add: length_sbg_loop n)
qed

lemma BDW_roundtrip:
  assumes "1 \<le> n"
  shows "\<exists>ps probs. predicted_survival (BDWModel meth initial) n [alpha, beta, c] = Inr ps
           \<and> BDW_generate_probabilities n [alpha, beta, c] = Inr probs
           \<and> survival_rates ps = Inr probs \<and> length probs = nat n"
proof -
  let ?g = "\<lambda>t. projr (BDW_survivor t [alpha, beta, c] None)"
  have "predicted_survival (BDWModel meth initial) n [alpha, beta, c]
      = Inr (map (\<lambda>i. ?g (int i)) [0..<nat n])"
    by (rule predicted_survival_map) (simp add: BDWModel_def)
  then obtain ps where ps: "predicted_survival (BDWModel meth initial) n [alpha, beta, c] = Inr ps"
    and len: "length ps = nat n"
    by simp
  have c: "comprehension (\<lambda>i. BDW_survivor i [alpha, beta, c] None) (range2 0 n) = Inr ps"
    using ps by (simp only: predicted_survival_def BDWModel_def ltv_model.select_convs)
  have "ps \<noteq> []" using assms len by auto
  then obtain sr where sr: "survival_rates ps = Inr sr" "length sr = length ps"
    using survival_rates_nth [of ps] by blast
  have "BDW_generate_probabilities n [alpha, beta, c] = Inr sr"
    unfolding BDW_generate_probabilities_def c using sr(1) by simp
  then show ?thesis
    using ps sr len by simp
qed

section \<open>The likelihood sums\<close>

lemma enumerate_map_nth: "enumerate 0 xs = map (\<lambda>i. (i, xs ! i)) [0..<length xs]"
  by (rule nth_equalityI) (simp_all add: nth_enumerate_eq)

lemma sum_list_enumerate:
  "sum_list (map (\<lambda>(i, x). f i x) (enumerate 0 xs)) = (\<Sum>i<length xs. f i (xs ! i))"
  by (simp add: enumerate_map_nth comp_def interv_sum_list_conv_sum_set_nat atLeast0LessThan)

lemma sum_list_upt: "sum_list (map f [0..<n]) = (\<Sum>i<n. f i)"
  by (simp add: interv_sum_list_conv_sum_set_nat atLeast0LessThan)

lemma all_positive_guard: "(\<forall>p\<in>set params. 0 < p) \<Longrightarrow> \<not> any_nonpositive params"
  by (auto simp: any_nonpositive_def list_ex_iff)

lemma cohort_loop_sum:
  assumes "\<forall>(i, c)\<in>set ics. c \<noteq> [] \<and> length c - 1 \<le> length probs
             \<and> survivor m (int n - int i - 1) params None = Inr (s i)"
  shows "cohort_loop m params probs n acc ics
       = Inr (acc + (\<Sum>(i, c)\<leftarrow>ics.
                (\<Sum>j<length c - 1. (c ! j - c ! (j + 1)) * ln (probs ! j))
                + c ! (length c - 1) * ln (s i)))"
  using assms
proof (induction ics arbitrary: acc)
  case Nil
  show ?case by simp
next
  case (Cons ic ics)
  obtain i c where ic: "ic = (i, c)" by (cases ic)
  from Cons.prems have c: "c \<noteq> []" "length c - 1 \<le> length probs"
    "survivor m (int n - int i - 1) params None = Inr (s i)"
    and rest: "\<forall>(i, c)\<in>set ics. c \<noteq> [] \<and> length c - 1 \<le> length probs
             \<and> survivor m (int n - int i - 1) params None = Inr (s i)"
    by (simp_all add: ic)
  show ?case
    using c Cons.IH [OF rest]
    by (simp add: ic sum_list_upt last_conv_nth add.assoc del: upt_Suc)
qed

lemma sbg_loop_example: "sbg_loop 1 1 2 = [1 / 2, 1 / 6]"
proof -
  have "[1..<2] = [1]" by (simp add: upt_rec)
  then show ?thesis by (simp add: sbg_loop_def sbg_append_def)
qed

lemma SBG_survivor_values:
  "SBG_survivor 0 [1, 1] None = Inr (1 / 2)" "SBG_survivor 1 [1, 1] None = Inr (1 / 3)"
  by (simp_all add: SBG_survivor_closed sbg_S_def lessThan_Suc)

section \<open>The optimizer wrapper and the fit\<close>

lemma isclose_any_same_length:
  assumes "length xs = length bs"
  shows "isclose_any xs bs = Inr (\<exists>i<length xs. isclose (xs ! i) (bs ! i))"
proof -
  have "list_ex (\<lambda>(x, b). isclose x b) (zip xs bs) \<longleftrightarrow> (\<exists>i<length xs. isclose (xs ! i) (bs ! i))"
    using assms by (auto simp: list_ex_iff set_zip)
  then show ?thesis
    using assms by (simp add: isclose_any_def)
qed

lemma optimize_result:
  assumes obj: "make_objective m d b = Inr func"
    and res: "minimize func (initial_guess rand m) (bounds m) (optimization_method m) = Inr res"
    and len: "length (res_x res) = length (bounds m)"
  shows "optimize minimize rand m d b
       = (if \<exists>i<length (res_x res). isclose (res_x res ! i) (fst (bounds m ! i))
                \<or> isclose (res_x res ! i) (snd (bounds m ! i))
          then Inl parameters_inappropriate else Inr res)"
proof -
  define L where "L \<longleftrightarrow> (\<exists>i<length (res_x res). isclose (res_x res ! i) (fst (bounds m ! i)))"
  define H where "H \<longleftrightarrow> (\<exists>i<length (res_x res). isclose (res_x res ! i) (snd (bounds m ! i)))"
  have lo: "isclose_any (res_x res) (map fst (bounds m)) = Inr L"
    using len by (simp add: isclose_any_same_length L_def cong: conj_cong)
  have hi: "isclose_any (res_x res) (map snd (bounds m)) = Inr H"
    using len by (simp add: isclose_any_same_length H_def cong: conj_cong)
  have "optimize minimize rand m d b = (if L \<or> H then Inl parameters_inappropriate else Inr res)"
    by (cases L; cases H) (simp_all add: optimize_def obj res lo hi)
  moreover have "L \<or> H \<longleftrightarrow> (\<exists>i<length (res_x res). isclose (res_x res ! i) (fst (bounds m ! i))
                \<or> isclose (res_x res ! i) (snd (bounds m ! i)))"
    unfolding L_def H_def by blast
  ultimately show ?thesis
    by (simp only:)
qed

lemma example_objective:
  assumes "0 < a" and "0 < b"
  shows "\<exists>func. make_objective (SBGModel meth initial) (Flat [0.8, 0.65]) False = Inr func
     \<and> func [a, b] = Inr (projr (func [a, b]))"
proof -
  let ?m = "SBGModel meth initial"
  obtain sv where sv: "survival_rates [0.8, 0.65] = Inr sv" "length sv = 2"
    using survival_rates_nth [of "[0.8, 0.65]"] by auto
  have positive: "\<not> any_nonpositive [a, b]"
    using assms by (simp add: any_nonpositive_def)
  obtain ps where ps: "SBG_generate_probabilities 2 [a, b] = Inr ps" "length ps = 2"
    by (simp add: length_sbg_loop)
  obtain s where s: "SBG_survivor 1 [a, b] None = Inr s"
    by (simp add: SBG_survivor_sum)
  have "\<exists>v. log_likelihood ?m [a, b] [0.8, 0.65] (Some sv) = Inr v"
    using positive ps s sv by (simp add: log_likelihood_def SBGModel_def)
  then show ?thesis
    using sv(1) by (auto simp: negate_def)
qed

lemma comprehension_length: "comprehension f is = Inr ys \<Longrightarrow> length ys = length is"
  by (induction "is" arbitrary: ys) (auto split: sum.splits)

lemma comprehension_first: "comprehension f (i # is) = Inr ys \<Longrightarrow> \<exists>y. f i = Inr y"
  by (auto split: sum.splits)

lemma predicted_survival_first:
  assumes "predicted_survival m periods x = Inr curve" and "1 \<le> periods"
  shows "(\<exists>s. survivor m 0 x None = Inr s) \<and> length curve = nat periods"
proof -
  from assms(2) obtain k where k: "nat periods = Suc k" by (cases "nat periods") auto
  have "range2 0 periods = 0 # map int [1..<Suc k]"
    by (simp add: range2_0 k upt_conv_Cons del: upt_Suc)
  then have "\<exists>s. survivor m 0 x None = Inr s"
    using assms(1) comprehension_first [of "\<lambda>i. survivor m i x None" 0 _ curve]
    by (simp add: predicted_survival_def)
  moreover have "length curve = nat periods"
    using comprehension_length [OF assms(1) [unfolded predicted_survival_def]]
    by (simp add: range2_0)
  ultimately show ?thesis by simp
qed

lemma SBG_survivor_params: "SBG_survivor t x None = Inr s \<Longrightarrow> \<exists>alpha beta. x = [alpha, beta]"
  by (cases "(t + 1, x)" rule: SBG_generate_probabilities.cases)
    (auto simp: SBG_survivor_def)

lemma BDW_survivor_params: "BDW_survivor t x p = Inr s \<Longrightarrow> \<exists>alpha beta c. x = [alpha, beta, c]"
  by (cases "(t, x, p)" rule: BDW_survivor.cases) auto

lemma log_likelihood_precomputed:
  "survival_rates ds = Inr sv \<Longrightarrow> log_likelihood m x ds (Some sv) = log_likelihood m x ds None"
  by (simp add: log_likelihood_def)

lemma negate_Inr: "negate r = Inr v \<longleftrightarrow> r = Inr (- v)"
  by (cases r) (auto simp: negate_def)

lemma make_objective_value:
  assumes "first_is_iterable d = Inr b" and "make_objective m d b = Inr func"
    and "func x = Inr v"
  shows "case d of Flat ds \<Rightarrow> log_likelihood m x ds None = Inr (- v)
                 | Nested cohorts \<Rightarrow> log_likelihood_multi_cohort m x cohorts = Inr (- v)"
proof (cases d)
  case (Flat ds)
  with assms(1) have b: "b = False" by (cases ds) auto
  from assms(2) obtain sv where sv: "survival_rates ds = Inr sv"
    and func: "func = (\<lambda>x. negate (log_likelihood m x ds (Some sv)))"
    unfolding Flat b by (auto split: sum.splits)
  show ?thesis
    using assms(3) by (simp add: Flat func negate_Inr log_likelihood_precomputed [OF sv])
next
  case (Nested cohorts)
  with assms(1) have b: "b = True" by (cases cohorts) auto
  from assms(2) have "func = (\<lambda>x. negate (log_likelihood_multi_cohort m x cohorts))"
    unfolding Nested b by auto
  then show ?thesis
    using assms(3) by (simp add: Nested negate_Inr)
qed

lemma fit_returns:
  assumes "fit minimize rand m data periods = Inr result"
  obtains d b func res curve where
    "preprocess_data data = Inr d" "first_is_iterable d = Inr b"
    "make_objective m d b = Inr func"
    "minimize func (initial_guess rand m) (bounds m) (optimization_method m) = Inr res"
    "isclose_any (res_x res) (map fst (bounds m)) = Inr False"
    "isclose_any (res_x res) (map snd (bounds m)) = Inr False"
    "res_status res = 0"
    "predicted_survival m periods (res_x res) = Inr curve"
    "result = (dict_of (zip (param_names m) (map Number (res_x res))))
                (''retention_curve'' \<mapsto> Curve ([1] @ curve), ''loss'' \<mapsto> Number (res_fun res))"
proof -
  from assms obtain d b res curve where
    d: "preprocess_data data = Inr d" and b: "first_is_iterable d = Inr b"
    and opt: "optimize minimize rand m d b = Inr res"
    and st: "res_status res = 0"
    and curve: "predicted_survival m periods (res_x res) = Inr curve"
    and result: "result = (dict_of (zip (param_names m) (map Number (res_x res))))
                (''retention_curve'' \<mapsto> Curve ([1] @ curve), ''loss'' \<mapsto> Number (res_fun res))"
    by (auto simp: fit_def split: sum.splits if_splits)
  from opt obtain func where
    obj: "make_objective m d b = Inr func"
    and res: "minimize func (initial_guess rand m) (bounds m) (optimization_method m) = Inr res"
    and lo: "isclose_any (res_x res) (map fst (bounds m)) = Inr False"
    and hi: "isclose_any (res_x res) (map snd (bounds m)) = Inr False"
    by (auto simp: optimize_def split: sum.splits bool.splits)
  show ?thesis
    by (rule that [OF d b obj res lo hi st curve result])
qed


lemma two_entries: "(\<forall>i<Suc (Suc 0). P i) \<longleftrightarrow> P 0 \<and> P (Suc 0)"
  by (auto simp: less_Suc_eq)

lemma three_entries:
  "(\<forall>i<Suc (Suc (Suc 0)). P i) \<longleftrightarrow> P 0 \<and> P (Suc 0) \<and> P (Suc (Suc 0))"
  by (auto simp: less_Suc_eq)

lemma fit_with_reporting_minimizer:
  assumes "preprocess_data data = Inr d" and "first_is_iterable d = Inr b"
    and "make_objective m d b = Inr func" and "func x = Inr v"
    and "isclose_any x (map fst (bounds m)) = Inr False"
    and "isclose_any x (map snd (bounds m)) = Inr False"
    and "predicted_survival m periods x = Inr curve"
  shows "fit (reporting_minimizer x) rand m data periods
       = Inr ((dict_of (zip (param_names m) (map Number x)))
                (''retention_curve'' \<mapsto> Curve ([1] @ curve), ''loss'' \<mapsto> Number v))"
  using assms by (simp add: fit_def optimize_def reporting_minimizer_def)

lemma example_fit:
  "\<exists>v. fit (reporting_minimizer [1, 1]) half_rand (SBGModel ''nelder-mead'' None)
         (Flat [0.8, 0.65]) periods
       = Inr ([''alpha'' \<mapsto> Number 1, ''beta'' \<mapsto> Number 1,
               ''retention_curve'' \<mapsto> Curve (1 # map (\<lambda>i. sbg_S 1 1 (Suc i)) [0..<nat periods]),
               ''loss'' \<mapsto> Number v])"
proof -
  let ?m = "SBGModel ''nelder-mead'' None"
  obtain func where obj: "make_objective ?m (Flat [0.8, 0.65]) False = Inr func"
    and val: "func [1, 1] = Inr (projr (func [1, 1]))"
    using example_objective [where a = 1 and b = 1 and meth = "''nelder-mead''" and initial = None]
    by auto
  have pre: "preprocess_data (Flat [0.8, 0.65]) = Inr (Flat [0.8, 0.65])" by simp
  have first: "first_is_iterable (Flat [0.8, 0.65]) = Inr False" by simp
  have lo: "isclose_any [1, 1] (map fst (bounds ?m)) = Inr False"
    by (simp add: isclose_any_def SBGModel_def isclose_def)
  have hi: "isclose_any [1, 1] (map snd (bounds ?m)) = Inr False"
    by (simp add: isclose_any_def SBGModel_def isclose_def)
  have curve: "predicted_survival ?m periods [1, 1]
      = Inr (map (\<lambda>i. sbg_S 1 1 (Suc (nat (int i)))) [0..<nat periods])"
    by (rule predicted_survival_map) (simp add: SBGModel_def SBG_survivor_closed)
  have "fit (reporting_minimizer [1, 1]) half_rand ?m (Flat [0.8, 0.65]) periods
       = Inr ([''alpha'' \<mapsto> Number 1, ''beta'' \<mapsto> Number 1,
               ''retention_curve'' \<mapsto> Curve (1 # map (\<lambda>i. sbg_S 1 1 (Suc i)) [0..<nat periods]),
               ''loss'' \<mapsto> Number (projr (func [1, 1]))])"
    using fit_with_reporting_minimizer [OF pre first obj val lo hi curve, of half_rand]
    by (simp add: SBGModel_def dict_of_def)
  then show ?thesis by (rule exI)
qed

lemma predicted_survival_no_periods:
  "periods \<le> 0 \<Longrightarrow> predicted_survival m periods x = Inr []"
  by (simp add: predicted_survival_def range2_def)

lemma fit_no_periods:
  assumes "periods \<le> 0"
  shows "fit minimize rand m data periods = fit minimize rand m data 0"
proof -
  have "predicted_survival m periods = predicted_survival m 0"
    using assms by (intro ext) (simp add: predicted_survival_no_periods)
  then show ?thesis
    unfolding fit_def by (simp only:)
qed

section \<open>Binary64 rounding\<close>

















section \<open>The binary64 probabilities at \<open>alpha = 1000\<close>, \<open>beta = 0.01\<close>\<close>











































section \<open>The claims\<close>

text \<open>
  Claim C9. For every model and every data, when some component of the parameter vector
  is less than or equal to \<open>0\<close>, both \<^verbatim>\<open>log_likelihood\<close> and
  \<^verbatim>\<open>log_likelihood_multi_cohort\<close> return the sentinel \<open>-1000\<close>; they do not raise, and
  the result does not depend on the model, whose methods are not reached (it is the same
  for a model whose two methods always raise).
\<close>

theorem nonpositive_parameter_sentinel:
  assumes "\<exists>p\<in>set params. p \<le> 0"
  shows "log_likelihood m params data survivors = Inr (- 1000)
       \<and> log_likelihood_multi_cohort m params cohorts = Inr (- 1000)"
  using assms
  by (simp add: log_likelihood_def log_likelihood_multi_cohort_def any_nonpositive_def
      list_ex_iff)

theorem nonpositive_parameter_sentinel_witness:
  "(\<exists>p\<in>set [1, - 1 :: real]. p \<le> 0)
   \<and> log_likelihood
        \<lparr> optimization_method = ''nelder-mead'', initial_params = None,
          param_names = [''alpha'', ''beta''], bounds = [(0.0001, 10000), (0.0001, 10000)],
          survivor = (\<lambda>t params probabilities. Inl TypeError),
          generate_probabilities = (\<lambda>periods params. Inl TypeError) \<rparr>
        [1, - 1] [0.8, 0.65] None = Inr (- 1000)
   \<and> log_likelihood_multi_cohort
        \<lparr> optimization_method = ''nelder-mead'', initial_params = None,
          param_names = [''alpha'', ''beta''], bounds = [(0.0001, 10000), (0.0001, 10000)],
          survivor = (\<lambda>t params probabilities. Inl TypeError),
          generate_probabilities = (\<lambda>periods params. Inl TypeError) \<rparr>
        [1, - 1] [[733, 379], [519]] = Inr (- 1000)"
proof -
  have h: "\<exists>p\<in>set [1, - 1 :: real]. p \<le> 0" by simp
  show ?thesis
    using h nonpositive_parameter_sentinel [OF h] by blast
qed

text \<open>
  Claim C7. On a flat sequence with first element \<open>d\<close>, \<^verbatim>\<open>preprocess_data\<close> returns
  the rest of the sequence divided by \<open>d\<close> when \<open>d > 1\<close>, the rest of the sequence
  unchanged when \<open>d = 1\<close>, and the whole sequence unchanged otherwise; the counts
  \<open>[733, 379, 282, 225]\<close> become \<open>[379/733, 282/733, 225/733]\<close>.
\<close>

theorem preprocess_data_flat:
  "preprocess_data (Flat (d # ds))
     = Inr (Flat (if 1 < d then map (\<lambda>y. y / d) ds else if d = 1 then ds else d # ds))
   \<and> preprocess_data (Flat [733, 379, 282, 225]) = Inr (Flat [379 / 733, 282 / 733, 225 / 733])"
  by simp





text \<open>
  The survivor curves in exact real arithmetic (C4 read without rounding). For
  \<^verbatim>\<open>SBGModel\<close> and for \<^verbatim>\<open>BDWModel\<close>, for every parameter vector inside the declared
  bounds of the model and every \<open>t \<ge> 0\<close>, \<^verbatim>\<open>survivor(t + 1, params)\<close> is at most
  \<^verbatim>\<open>survivor(t, params)\<close>, and \<^verbatim>\<open>predicted_survival(periods, params)\<close> is a
  non-increasing sequence. The values that the program returns are binary64: those of
  \<^verbatim>\<open>BDWModel.survivor\<close> are the exponential of a sum of four rounded values of scipy's
  \<^verbatim>\<open>gammaln\<close>, whose algorithm and rounding errors are outside this embedding, and the
  statement says nothing about them.
\<close>

theorem survivor_nonincreasing:
  assumes model: "m = SBGModel meth initial \<or> m = BDWModel meth initial"
    and inside: "list_all2 (\<lambda>p (lo, hi). lo \<le> p \<and> p \<le> hi) params (bounds m)"
    and t: "0 \<le> t"
  shows "(\<exists>s s'. survivor m t params None = Inr s
            \<and> survivor m (t + 1) params None = Inr s' \<and> s' \<le> s)
       \<and> (\<exists>ps. predicted_survival m periods params = Inr ps \<and> length ps = nat periods
             \<and> (\<forall>i j. i \<le> j \<and> j < length ps \<longrightarrow> ps ! j \<le> ps ! i))"
proof -
  have step: "\<exists>s s'. survivor m u params None = Inr s
      \<and> survivor m (u + 1) params None = Inr s' \<and> s' \<le> s" if "0 \<le> u" for u
    using model
  proof
    assume m: "m = SBGModel meth initial"
    from inside obtain alpha beta where "params = [alpha, beta]" "0 < alpha" "0 < beta"
      unfolding m by (rule SBG_within_bounds)
    then show ?thesis
      using SBG_survivor_step [of alpha beta u] that by (simp add: m SBGModel_def)
  next
    assume m: "m = BDWModel meth initial"
    from inside obtain alpha beta c where "params = [alpha, beta, c]" "0 < alpha" "0 < beta" "0 < c"
      unfolding m by (rule BDW_within_bounds)
    then show ?thesis
      using BDW_survivor_step [of alpha beta c u] that by (simp add: m BDWModel_def)
  qed
  show ?thesis
    using step [OF t] predicted_survival_nonincreasing [of m params periods, OF step]
    by blast
qed

theorem survivor_nonincreasing_witness:
  "((\<exists>s s'. survivor (SBGModel ''nelder-mead'' None) 0 [1, 1] None = Inr s
            \<and> survivor (SBGModel ''nelder-mead'' None) (0 + 1) [1, 1] None = Inr s' \<and> s' \<le> s)
       \<and> (\<exists>ps. predicted_survival (SBGModel ''nelder-mead'' None) 3 [1, 1] = Inr ps
             \<and> length ps = nat 3
             \<and> (\<forall>i j. i \<le> j \<and> j < length ps \<longrightarrow> ps ! j \<le> ps ! i)))
   \<and> ((\<exists>s s'. survivor (BDWModel ''nelder-mead'' None) 0 [1, 1, 1] None = Inr s
            \<and> survivor (BDWModel ''nelder-mead'' None) (0 + 1) [1, 1, 1] None = Inr s' \<and> s' \<le> s)
       \<and> (\<exists>ps. predicted_survival (BDWModel ''nelder-mead'' None) 3 [1, 1, 1] = Inr ps
             \<and> length ps = nat 3
             \<and> (\<forall>i j. i \<le> j \<and> j < length ps \<longrightarrow> ps ! j \<le> ps ! i)))"
proof -
  have sbg: "list_all2 (\<lambda>p (lo, hi). lo \<le> p \<and> p \<le> hi) [1, 1]
      (bounds (SBGModel ''nelder-mead'' None))"
    by (simp add: SBGModel_def)
  have bdw: "list_all2 (\<lambda>p (lo, hi). lo \<le> p \<and> p \<le> hi) [1, 1, 1]
      (bounds (BDWModel ''nelder-mead'' None))"
    by (simp add: BDWModel_def)
  show ?thesis
    using survivor_nonincreasing [OF disjI1 [OF refl] sbg order_refl, where periods = 3]
      survivor_nonincreasing [OF disjI2 [OF refl] bdw order_refl, where periods = 3]
    by blast
qed

text \<open>
  Claim C5. For \<^verbatim>\<open>SBGModel\<close> and for \<^verbatim>\<open>BDWModel\<close>, for every parameter vector inside
  the declared bounds and every \<open>n \<ge> 1\<close> (so for every \<open>n\<close> from \<open>1\<close> to \<open>50\<close>),
  \<^verbatim>\<open>survival_rates(predicted_survival(n, params))\<close> is the list
  \<^verbatim>\<open>generate_probabilities(n, params)\<close>, exactly in real arithmetic.
\<close>

theorem survival_rates_roundtrip:
  assumes model: "m = SBGModel meth initial \<or> m = BDWModel meth initial"
    and inside: "list_all2 (\<lambda>p (lo, hi). lo \<le> p \<and> p \<le> hi) params (bounds m)"
    and n: "1 \<le> n"
  shows "\<exists>ps probs. predicted_survival m n params = Inr ps
           \<and> generate_probabilities m n params = Inr probs
           \<and> survival_rates ps = Inr probs \<and> length probs = nat n"
  using model
proof
  assume m: "m = SBGModel meth initial"
  from inside obtain alpha beta where "params = [alpha, beta]" "0 < alpha" "0 < beta"
    unfolding m by (rule SBG_within_bounds)
  then show ?thesis
    using SBG_roundtrip [OF n, of meth initial alpha beta] by (simp add: m) (simp add: SBGModel_def)
next
  assume m: "m = BDWModel meth initial"
  from inside obtain alpha beta c where "params = [alpha, beta, c]" "0 < alpha" "0 < beta" "0 < c"
    unfolding m by (rule BDW_within_bounds)
  then show ?thesis
    using BDW_roundtrip [OF n, of meth initial alpha beta c] by (simp add: m) (simp add: BDWModel_def)
qed

theorem survival_rates_roundtrip_witness:
  "(\<exists>ps probs. predicted_survival (SBGModel ''nelder-mead'' None) 50 [1, 1] = Inr ps
           \<and> generate_probabilities (SBGModel ''nelder-mead'' None) 50 [1, 1] = Inr probs
           \<and> survival_rates ps = Inr probs \<and> length probs = nat 50)
   \<and> (\<exists>ps probs. predicted_survival (BDWModel ''nelder-mead'' None) 50 [1, 1, 1] = Inr ps
           \<and> generate_probabilities (BDWModel ''nelder-mead'' None) 50 [1, 1, 1] = Inr probs
           \<and> survival_rates ps = Inr probs \<and> length probs = nat 50)"
proof -
  have sbg: "list_all2 (\<lambda>p (lo, hi). lo \<le> p \<and> p \<le> hi) [1, 1]
      (bounds (SBGModel ''nelder-mead'' None))"
    by (simp add: SBGModel_def)
  have bdw: "list_all2 (\<lambda>p (lo, hi). lo \<le> p \<and> p \<le> hi) [1, 1, 1]
      (bounds (BDWModel ''nelder-mead'' None))"
    by (simp add: BDWModel_def)
  have n: "(1::int) \<le> 50" by simp
  show ?thesis
    using survival_rates_roundtrip [OF disjI1 [OF refl] sbg n]
      survival_rates_roundtrip [OF disjI2 [OF refl] bdw n]
    by blast
qed


text \<open>
  Claim C1. For every model, every parameter vector whose components are all strictly
  positive and every non-empty observation series \<open>data\<close>, \<^verbatim>\<open>log_likelihood(params, data)\<close>,
  called without precomputed survivors, returns the sum over \<open>t < len(data)\<close> of
  \<^verbatim>\<open>survival_rates(data)[t] * log(probabilities[t])\<close>, plus
  \<^verbatim>\<open>data[len(data) - 1] * log(survivor(len(data) - 1, params))\<close>, where
  \<open>probabilities\<close> is \<^verbatim>\<open>generate_probabilities(len(data), params)\<close>. The two methods of
  the model are abstract: the statement is about the calls in which they return, the
  probabilities with an entry for every period of \<open>data\<close>.
\<close>

theorem log_likelihood_formula:
  assumes positive: "\<forall>p\<in>set params. 0 < p"
    and nonempty: "data \<noteq> []"
    and probs: "generate_probabilities m (int (length data)) params = Inr probabilities"
    and enough: "length data \<le> length probabilities"
    and final: "survivor m (int (length data) - 1) params None = Inr s"
  shows "\<exists>sr. survival_rates data = Inr sr
           \<and> log_likelihood m params data None
             = Inr ((\<Sum>t<length data. sr ! t * ln (probabilities ! t))
                    + data ! (length data - 1) * ln s)"
proof -
  from nonempty obtain sr where sr: "survival_rates data = Inr sr" "length sr = length data"
    using survival_rates_nth [of data] by blast
  have "log_likelihood m params data None
      = Inr (sum_list (map (\<lambda>(t, s). s * ln (probabilities ! t)) (enumerate 0 sr))
             + last data * ln s)"
    using all_positive_guard [OF positive] nonempty probs enough final sr
    by (simp add: log_likelihood_def)
  also have "sum_list (map (\<lambda>(t, s). s * ln (probabilities ! t)) (enumerate 0 sr))
      = (\<Sum>t<length data. sr ! t * ln (probabilities ! t))"
    by (simp add: sum_list_enumerate sr(2))
  also have "last data = data ! (length data - 1)"
    using nonempty by (rule last_conv_nth)
  finally show ?thesis
    using sr(1) by simp
qed

theorem log_likelihood_formula_witness:
  "log_likelihood (SBGModel ''nelder-mead'' None) [1, 1] [0.8, 0.65] None
     = Inr (0.2 * ln (1 / 2) + 0.15 * ln (1 / 6) + 0.65 * ln (1 / 3))"
proof -
  let ?m = "SBGModel ''nelder-mead'' None"
  have positive: "\<forall>p\<in>set [1, 1 :: real]. 0 < p" by simp
  have nonempty: "[0.8, 0.65 :: real] \<noteq> []" by simp
  have probs: "generate_probabilities ?m (int (length [0.8, 0.65 :: real])) [1, 1]
      = Inr [1 / 2, 1 / 6]"
    by (simp add: SBGModel_def sbg_loop_example)
  have enough: "length [0.8, 0.65 :: real] \<le> length [1 / 2, 1 / 6 :: real]" by simp
  have final: "survivor ?m (int (length [0.8, 0.65 :: real]) - 1) [1, 1] None = Inr (1 / 3)"
    by (simp add: SBGModel_def SBG_survivor_values)
  show ?thesis
    using log_likelihood_formula [OF positive nonempty probs enough final]
    by (simp add: lessThan_Suc eval_nat_numeral)
qed

text \<open>
  Claim C2. For every model, every all-positive parameter vector and every cohort set
  \<open>data\<close> of \<open>n\<close> non-empty count series, none longer than the first,
  \<^verbatim>\<open>log_likelihood_multi_cohort(params, data)\<close> is the sum over the cohorts \<open>i\<close> of the
  sum over \<open>j \<le> len(cohort) - 2\<close> of
  \<^verbatim>\<open>(cohort[j] - cohort[j+1]) * log(probabilities[j])\<close>, plus
  \<^verbatim>\<open>cohort[last] * log(survivor(n - i - 1, params))\<close>; \<open>probabilities\<close> is the one list
  \<^verbatim>\<open>generate_probabilities(len(data[0]), params)\<close>, used for every cohort. As in C1, the
  statement is about the calls in which the methods of the model return.
\<close>

theorem log_likelihood_multi_cohort_formula:
  assumes positive: "\<forall>p\<in>set params. 0 < p"
    and nonempty: "data \<noteq> []"
    and cohorts: "\<forall>c\<in>set data. c \<noteq> [] \<and> length c \<le> length (data ! 0)"
    and probs: "generate_probabilities m (int (length (data ! 0))) params = Inr probabilities"
    and enough: "length (data ! 0) \<le> length probabilities"
    and tails: "\<forall>i<length data. survivor m (int (length data) - int i - 1) params None = Inr (s i)"
  shows "log_likelihood_multi_cohort m params data
       = Inr (\<Sum>i<length data.
                (\<Sum>j<length (data ! i) - 1.
                    (data ! i ! j - data ! i ! (j + 1)) * ln (probabilities ! j))
                + data ! i ! (length (data ! i) - 1) * ln (s i))"
proof -
  from nonempty obtain c0 cs where data: "data = c0 # cs" by (cases data) auto
  have each: "\<forall>(i, c)\<in>set (enumerate 0 data). c \<noteq> [] \<and> length c - 1 \<le> length probabilities
      \<and> survivor m (int (length data) - int i - 1) params None = Inr (s i)"
  proof (clarify, intro conjI)
    fix i c assume "(i, c) \<in> set (enumerate 0 data)"
    then have i: "i < length data" and c: "c = data ! i"
      by (auto simp: enumerate_map_nth)
    then have "c \<in> set data" by simp
    with cohorts have *: "c \<noteq> [] \<and> length c \<le> length (data ! 0)" by blast
    from * show "c \<noteq> []" by simp
    from * enough show "length c - 1 \<le> length probabilities" by linarith
    from tails i show "survivor m (int (length data) - int i - 1) params None = Inr (s i)"
      by simp
  qed
  have "log_likelihood_multi_cohort m params data
      = cohort_loop m params probabilities (length data) 0 (enumerate 0 data)"
    using all_positive_guard [OF positive] probs
    by (simp add: log_likelihood_multi_cohort_def data)
  also have "\<dots> = Inr (0 + (\<Sum>(i, c)\<leftarrow>enumerate 0 data.
                (\<Sum>j<length c - 1. (c ! j - c ! (j + 1)) * ln (probabilities ! j))
                + c ! (length c - 1) * ln (s i)))"
    by (rule cohort_loop_sum [OF each])
  finally show ?thesis
    by (simp add: sum_list_enumerate)
qed


theorem log_likelihood_multi_cohort_formula_witness:
  "log_likelihood_multi_cohort (SBGModel ''nelder-mead'' None) [1, 1] [[733, 379], [519]]
     = Inr ((733 - 379) * ln (1 / 2) + 379 * ln (1 / 3) + 519 * ln (1 / 2))"
proof -
  let ?m = "SBGModel ''nelder-mead'' None"
  let ?data = "[[733, 379], [519 :: real]]"
  have positive: "\<forall>p\<in>set [1, 1 :: real]. 0 < p" by simp
  have nonempty: "?data \<noteq> []" by simp
  have cohorts: "\<forall>c\<in>set ?data. c \<noteq> [] \<and> length c \<le> length (?data ! 0)" by simp
  have probs: "generate_probabilities ?m (int (length (?data ! 0))) [1, 1] = Inr [1 / 2, 1 / 6]"
    by (simp add: SBGModel_def sbg_loop_example)
  have enough: "length (?data ! 0) \<le> length [1 / 2, 1 / 6 :: real]" by simp
  have tails: "\<forall>i<length ?data. survivor ?m (int (length ?data) - int i - 1) [1, 1] None
      = Inr ([1 / 3, 1 / 2] ! i)"
    by (simp add: SBGModel_def SBG_survivor_values less_Suc_eq)
  show ?thesis
    using log_likelihood_multi_cohort_formula [OF positive nonempty cohorts probs enough tails]
    by (simp add: lessThan_Suc eval_nat_numeral)
qed


text \<open>
  Claim C6. Whenever the minimizer that \<^verbatim>\<open>fit\<close> calls returns a result whose exit status
  is not \<open>0\<close>, or whose fitted vector (one entry per bound) has a component that
  \<^verbatim>\<open>np.isclose\<close> finds close to its lower or to its upper bound, \<^verbatim>\<open>fit\<close> raises one of
  its two \<^verbatim>\<open>Exception\<close>s whose message starts with \<open>Optimization Failed\<close>; it returns
  no result.
\<close>

theorem fit_optimization_failure:
  assumes pre: "preprocess_data data = Inr data'"
    and first: "first_is_iterable data' = Inr is_multi_cohort"
    and obj: "make_objective m data' is_multi_cohort = Inr func"
    and res: "minimize func (initial_guess rand m) (bounds m) (optimization_method m) = Inr res"
    and len: "length (res_x res) = length (bounds m)"
    and bad: "res_status res \<noteq> 0
            \<or> (\<exists>i<length (res_x res). isclose (res_x res ! i) (fst (bounds m ! i))
                  \<or> isclose (res_x res ! i) (snd (bounds m ! i)))"
  shows "fit minimize rand m data periods = Inl parameters_inappropriate
       \<or> fit minimize rand m data periods
           = Inl (Exception [''Optimization Failed:'', res_message res])"
proof (cases "\<exists>i<length (res_x res). isclose (res_x res ! i) (fst (bounds m ! i))
                  \<or> isclose (res_x res ! i) (snd (bounds m ! i))")
  case True
  then have "optimize minimize rand m data' is_multi_cohort = Inl parameters_inappropriate"
    by (simp only: optimize_result [where minimize = minimize, OF obj res len] if_True)
  then show ?thesis
    by (simp add: fit_def pre first)
next
  case False
  then have "optimize minimize rand m data' is_multi_cohort = Inr res"
    by (simp only: optimize_result [where minimize = minimize, OF obj res len] if_False)
  moreover from False bad have "res_status res \<noteq> 0" by blast
  ultimately show ?thesis
    by (simp add: fit_def pre first)
qed

theorem fit_optimization_failure_witness:
  "fit (reporting_minimizer [0.0001, 1]) half_rand (SBGModel ''nelder-mead'' None)
       (Flat [0.8, 0.65]) 52
     = Inl parameters_inappropriate
   \<or> fit (reporting_minimizer [0.0001, 1]) half_rand (SBGModel ''nelder-mead'' None)
       (Flat [0.8, 0.65]) 52
     = Inl (Exception [''Optimization Failed:'', ''Optimization terminated successfully.''])"
proof -
  let ?m = "SBGModel ''nelder-mead'' None"
  obtain func where obj: "make_objective ?m (Flat [0.8, 0.65]) False = Inr func"
    and val: "func [0.0001, 1] = Inr (projr (func [0.0001, 1]))"
    using example_objective [where a = "0.0001" and b = 1 and meth = "''nelder-mead''"
        and initial = None]
    by auto
  let ?res = "\<lparr> res_x = [0.0001, 1], res_status = 0, res_fun = projr (func [0.0001, 1]),
                res_message = ''Optimization terminated successfully.'' \<rparr>"
  have pre: "preprocess_data (Flat [0.8, 0.65]) = Inr (Flat [0.8, 0.65])" by simp
  have first: "first_is_iterable (Flat [0.8, 0.65]) = Inr False" by simp
  have res: "reporting_minimizer [0.0001, 1] func (initial_guess half_rand ?m) (bounds ?m)
      (optimization_method ?m) = Inr ?res"
    by (subst reporting_minimizer_def, subst val) simp
  have len: "length (res_x ?res) = length (bounds ?m)"
    by (simp add: SBGModel_def)
  have "isclose (res_x ?res ! 0) (fst (bounds ?m ! 0))"
    by (simp add: SBGModel_def isclose_def)
  then have bad: "res_status ?res \<noteq> 0
            \<or> (\<exists>i<length (res_x ?res). isclose (res_x ?res ! i) (fst (bounds ?m ! i))
                  \<or> isclose (res_x ?res ! i) (snd (bounds ?m ! i)))"
    by (intro disjI2 exI [of _ 0]) simp
  show ?thesis
    using fit_optimization_failure
      [where minimize = "reporting_minimizer [0.0001, 1]" and periods = 52,
        OF pre first obj res len bad]
    by simp
qed


text \<open>
  Claim C8. For every call \<^verbatim>\<open>fit(data, periods)\<close> with \<open>periods \<ge> 1\<close> on one of the two
  models that returns, the dictionary returned holds one entry for every parameter name
  of the model, with the fitted value of that parameter; \<^verbatim>\<open>retention_curve\<close>, a list of
  \<open>periods + 1\<close> numbers that starts with \<open>1\<close> and goes on with
  \<^verbatim>\<open>predicted_survival(periods, fitted)\<close>; and \<^verbatim>\<open>loss\<close>, the number that the minimizer
  reports as the value of the objective. No other key is present. When the minimizer
  reports the value of the objective at the fitted vector, as \<^verbatim>\<open>scipy.optimize.minimize\<close>
  does, that number is the negated log-likelihood of the preprocessed data at the fitted
  vector.
\<close>

theorem fit_result_structure:
  assumes model: "m = SBGModel meth initial \<or> m = BDWModel meth initial"
    and periods: "1 \<le> periods"
    and returned: "fit minimize rand m data periods = Inr result"
  shows "\<exists>d b func res curve.
           preprocess_data data = Inr d \<and> first_is_iterable d = Inr b
         \<and> make_objective m d b = Inr func
         \<and> minimize func (initial_guess rand m) (bounds m) (optimization_method m) = Inr res
         \<and> length (res_x res) = length (param_names m)
         \<and> (\<forall>i<length (param_names m). result (param_names m ! i) = Some (Number (res_x res ! i)))
         \<and> predicted_survival m periods (res_x res) = Inr curve
         \<and> result ''retention_curve'' = Some (Curve (1 # curve))
         \<and> length (1 # curve) = nat periods + 1
         \<and> result ''loss'' = Some (Number (res_fun res))
         \<and> dom result = set (param_names m) \<union> {''retention_curve'', ''loss''}
         \<and> (func (res_x res) = Inr (res_fun res) \<longrightarrow>
               (case d of
                  Flat ds \<Rightarrow> log_likelihood m (res_x res) ds None = Inr (- res_fun res)
                | Nested cohorts \<Rightarrow>
                    log_likelihood_multi_cohort m (res_x res) cohorts = Inr (- res_fun res)))"
proof -
  from returned obtain d b func res curve where
    d: "preprocess_data data = Inr d" and b: "first_is_iterable d = Inr b"
    and obj: "make_objective m d b = Inr func"
    and res: "minimize func (initial_guess rand m) (bounds m) (optimization_method m) = Inr res"
    and curve: "predicted_survival m periods (res_x res) = Inr curve"
    and result: "result = (dict_of (zip (param_names m) (map Number (res_x res))))
                (''retention_curve'' \<mapsto> Curve ([1] @ curve), ''loss'' \<mapsto> Number (res_fun res))"
    by (rule fit_returns)
  from predicted_survival_first [OF curve periods]
  obtain s where s: "survivor m 0 (res_x res) None = Inr s" and len: "length curve = nat periods"
    by blast
  have loss: "func (res_x res) = Inr (res_fun res) \<longrightarrow>
               (case d of
                  Flat ds \<Rightarrow> log_likelihood m (res_x res) ds None = Inr (- res_fun res)
                | Nested cohorts \<Rightarrow>
                    log_likelihood_multi_cohort m (res_x res) cohorts = Inr (- res_fun res))"
    using make_objective_value [OF b obj] by blast
  have entries: "length (res_x res) = length (param_names m)
      \<and> (\<forall>i<length (param_names m). result (param_names m ! i) = Some (Number (res_x res ! i)))
      \<and> result ''retention_curve'' = Some (Curve (1 # curve))
      \<and> result ''loss'' = Some (Number (res_fun res))
      \<and> dom result = set (param_names m) \<union> {''retention_curve'', ''loss''}"
    using model
  proof
    assume m: "m = SBGModel meth initial"
    from s obtain alpha beta where x: "res_x res = [alpha, beta]"
      using SBG_survivor_params [of 0 "res_x res" s] by (auto simp: m SBGModel_def)
    show ?thesis
      unfolding result x m by (auto simp: SBGModel_def dict_of_def two_entries)
  next
    assume m: "m = BDWModel meth initial"
    from s obtain alpha beta c where x: "res_x res = [alpha, beta, c]"
      using BDW_survivor_params [of 0 "res_x res" None s] by (auto simp: m BDWModel_def)
    show ?thesis
      unfolding result x m by (auto simp: BDWModel_def dict_of_def three_entries)
  qed
  show ?thesis
    using d b obj res curve len loss entries by (intro exI [of _ d] exI [of _ b]
      exI [of _ func] exI [of _ res] exI [of _ curve]) simp
qed

theorem fit_result_structure_witness:
  "\<exists>result.
     fit (reporting_minimizer [1, 1]) half_rand (SBGModel ''nelder-mead'' None)
       (Flat [0.8, 0.65]) 3 = Inr result
   \<and> (\<exists>d b func res curve.
           preprocess_data (Flat [0.8, 0.65]) = Inr d \<and> first_is_iterable d = Inr b
         \<and> make_objective (SBGModel ''nelder-mead'' None) d b = Inr func
         \<and> reporting_minimizer [1, 1] func
              (initial_guess half_rand (SBGModel ''nelder-mead'' None))
              (bounds (SBGModel ''nelder-mead'' None))
              (optimization_method (SBGModel ''nelder-mead'' None)) = Inr res
         \<and> length (res_x res) = length (param_names (SBGModel ''nelder-mead'' None))
         \<and> (\<forall>i<length (param_names (SBGModel ''nelder-mead'' None)).
               result (param_names (SBGModel ''nelder-mead'' None) ! i)
                 = Some (Number (res_x res ! i)))
         \<and> predicted_survival (SBGModel ''nelder-mead'' None) 3 (res_x res) = Inr curve
         \<and> result ''retention_curve'' = Some (Curve (1 # curve))
         \<and> length (1 # curve) = nat 3 + 1
         \<and> result ''loss'' = Some (Number (res_fun res))
         \<and> dom result = set (param_names (SBGModel ''nelder-mead'' None))
                           \<union> {''retention_curve'', ''loss''}
         \<and> (func (res_x res) = Inr (res_fun res) \<longrightarrow>
               (case d of
                  Flat ds \<Rightarrow>
                    log_likelihood (SBGModel ''nelder-mead'' None) (res_x res) ds None
                      = Inr (- res_fun res)
                | Nested cohorts \<Rightarrow>
                    log_likelihood_multi_cohort (SBGModel ''nelder-mead'' None) (res_x res) cohorts
                      = Inr (- res_fun res))))"
proof -
  obtain result where returned:
    "fit (reporting_minimizer [1, 1]) half_rand (SBGModel ''nelder-mead'' None)
       (Flat [0.8, 0.65]) 3 = Inr result"
    using example_fit [of 3] by blast
  have model: "SBGModel ''nelder-mead'' None = SBGModel ''nelder-mead'' None
      \<or> SBGModel ''nelder-mead'' None = BDWModel ''nelder-mead'' None"
    by simp
  have periods: "(1::int) \<le> 3" by simp
  show ?thesis
    using returned
      fit_result_structure [where minimize = "reporting_minimizer [1, 1]", OF model periods returned]
    by (intro exI [of _ result] conjI)
qed

text \<open>
  Claim C10, as amended. \<^verbatim>\<open>fit\<close> validates nothing itself. Empty data (an empty
  sequence, a single empty cohort, or a sequence that preprocessing empties) makes it
  raise \<^verbatim>\<open>IndexError\<close>, whatever the minimizer, so before any optimization.
  \<open>periods\<close> is not checked: every \<open>periods \<le> 0\<close> gives what \<open>periods = 0\<close> gives,
  and a result returned then has the retention curve \<open>[1]\<close>. The initial vector is not
  checked: a non-empty one goes to the minimizer as it is, whatever its length, and an
  exception of the minimizer is the exception of \<^verbatim>\<open>fit\<close>. A result is returned only
  when the minimizer reported status \<open>0\<close> and a fitted vector with no component close
  to a bound.
\<close>

theorem fit_input_validation:
  "(data = Flat [] \<or> data = Nested [] \<or> data = Nested [[]] \<or> data = Flat [1]
      \<or> data = Nested [[1]]
      \<longrightarrow> fit minimize rand m data periods = Inl IndexError)
   \<and> (periods \<le> 0 \<longrightarrow> fit minimize rand m data periods = fit minimize rand m data 0)
   \<and> (periods \<le> 0 \<and> fit minimize rand m data periods = Inr result
      \<longrightarrow> result ''retention_curve'' = Some (Curve [1]))
   \<and> (initial_params m = Some (p # ps) \<longrightarrow> initial_guess rand m = p # ps)
   \<and> (preprocess_data data = Inr d \<and> first_is_iterable d = Inr b
        \<and> make_objective m d b = Inr func
        \<and> minimize func (initial_guess rand m) (bounds m) (optimization_method m) = Inl e
      \<longrightarrow> fit minimize rand m data periods = Inl e)
   \<and> (fit minimize rand m data periods = Inr result
      \<longrightarrow> (\<exists>d b func res.
             preprocess_data data = Inr d \<and> first_is_iterable d = Inr b
           \<and> make_objective m d b = Inr func
           \<and> minimize func (initial_guess rand m) (bounds m) (optimization_method m) = Inr res
           \<and> res_status res = 0
           \<and> isclose_any (res_x res) (map fst (bounds m)) = Inr False
           \<and> isclose_any (res_x res) (map snd (bounds m)) = Inr False))"
proof (intro conjI impI)
  assume "data = Flat [] \<or> data = Nested [] \<or> data = Nested [[]] \<or> data = Flat [1]
      \<or> data = Nested [[1]]"
  then show "fit minimize rand m data periods = Inl IndexError"
    by (auto simp: fit_def)
next
  assume "periods \<le> 0"
  then show "fit minimize rand m data periods = fit minimize rand m data 0"
    by (rule fit_no_periods)
next
  assume a: "periods \<le> 0 \<and> fit minimize rand m data periods = Inr result"
  then have "fit minimize rand m data periods = Inr result" by simp
  then obtain res :: optimize_result and curve where
    curve: "predicted_survival m periods (res_x res) = Inr curve"
    and result: "result = (dict_of (zip (param_names m) (map Number (res_x res))))
                (''retention_curve'' \<mapsto> Curve ([1] @ curve), ''loss'' \<mapsto> Number (res_fun res))"
    by (rule fit_returns) blast
  from a curve have "curve = []" by (simp add: predicted_survival_no_periods)
  then show "result ''retention_curve'' = Some (Curve [1])"
    by (simp add: result)
next
  assume "initial_params m = Some (p # ps)"
  then show "initial_guess rand m = p # ps"
    by (simp add: initial_guess_def)
next
  assume "preprocess_data data = Inr d \<and> first_is_iterable d = Inr b
        \<and> make_objective m d b = Inr func
        \<and> minimize func (initial_guess rand m) (bounds m) (optimization_method m) = Inl e"
  then show "fit minimize rand m data periods = Inl e"
    by (simp add: fit_def optimize_def)
next
  assume "fit minimize rand m data periods = Inr result"
  then obtain d b func and res :: optimize_result where
    "preprocess_data data = Inr d" "first_is_iterable d = Inr b"
    "make_objective m d b = Inr func"
    "minimize func (initial_guess rand m) (bounds m) (optimization_method m) = Inr res"
    "isclose_any (res_x res) (map fst (bounds m)) = Inr False"
    "isclose_any (res_x res) (map snd (bounds m)) = Inr False"
    "res_status res = 0"
    by (rule fit_returns) blast
  then show "\<exists>d b func res.
             preprocess_data data = Inr d \<and> first_is_iterable d = Inr b
           \<and> make_objective m d b = Inr func
           \<and> minimize func (initial_guess rand m) (bounds m) (optimization_method m) = Inr res
           \<and> res_status res = 0
           \<and> isclose_any (res_x res) (map fst (bounds m)) = Inr False
           \<and> isclose_any (res_x res) (map snd (bounds m)) = Inr False"
    by (intro exI [of _ d] exI [of _ b] exI [of _ func] exI [of _ res] conjI)
qed

theorem fit_input_validation_witness:
  "fit raising_minimizer half_rand (SBGModel ''nelder-mead'' None) (Flat []) 52 = Inl IndexError
   \<and> fit (reporting_minimizer [1, 1]) half_rand (SBGModel ''nelder-mead'' None)
         (Flat [0.8, 0.65]) (- 3)
       = fit (reporting_minimizer [1, 1]) half_rand (SBGModel ''nelder-mead'' None)
         (Flat [0.8, 0.65]) 0
   \<and> (\<exists>result. fit (reporting_minimizer [1, 1]) half_rand (SBGModel ''nelder-mead'' None)
         (Flat [0.8, 0.65]) (- 3) = Inr result
         \<and> result ''retention_curve'' = Some (Curve [1]))
   \<and> initial_guess half_rand (SBGModel ''nelder-mead'' (Some [0.5])) = [0.5]
   \<and> fit raising_minimizer half_rand (SBGModel ''nelder-mead'' (Some [0.5]))
         (Flat [0.8, 0.65]) 52
       = Inl (Exception [''minimize was called''])"
proof -
  let ?m = "SBGModel ''nelder-mead'' None"
  let ?m' = "SBGModel ''nelder-mead'' (Some [0.5])"
  note empty = fit_input_validation [where data = "Flat []" and minimize = raising_minimizer
      and rand = half_rand and m = ?m and periods = 52, THEN conjunct1, THEN mp]
  have 1: "fit raising_minimizer half_rand ?m (Flat []) 52 = Inl IndexError"
    by (rule empty) simp
  obtain result where returned:
    "fit (reporting_minimizer [1, 1]) half_rand ?m (Flat [0.8, 0.65]) (- 3) = Inr result"
    using example_fit [of "- 3"] by blast
  note negative = fit_input_validation [where data = "Flat [0.8, 0.65]"
      and minimize = "reporting_minimizer [1, 1]" and rand = half_rand and m = ?m
      and periods = "- 3" and result = result]
  have 2: "fit (reporting_minimizer [1, 1]) half_rand ?m (Flat [0.8, 0.65]) (- 3)
       = fit (reporting_minimizer [1, 1]) half_rand ?m (Flat [0.8, 0.65]) 0"
    by (rule negative [THEN conjunct2, THEN conjunct1, THEN mp]) simp
  have 3: "result ''retention_curve'' = Some (Curve [1])"
    by (rule negative [THEN conjunct2, THEN conjunct2, THEN conjunct1, THEN mp])
      (use returned in simp)
  obtain func where obj: "make_objective ?m' (Flat [0.8, 0.65]) False = Inr func"
    using example_objective [where a = 1 and b = 1 and meth = "''nelder-mead''"
        and initial = "Some [0.5]"]
    by auto
  note mismatch = fit_input_validation [where data = "Flat [0.8, 0.65]"
      and minimize = raising_minimizer and rand = half_rand and m = ?m' and periods = 52
      and p = "0.5" and ps = "[]" and d = "Flat [0.8, 0.65]" and b = False and func = func
      and e = "Exception [''minimize was called'']"]
  have 4: "initial_guess half_rand ?m' = [0.5]"
    by (rule mismatch [THEN conjunct2, THEN conjunct2, THEN conjunct2, THEN conjunct1, THEN mp])
      (simp add: SBGModel_def)
  have 5: "fit raising_minimizer half_rand ?m' (Flat [0.8, 0.65]) 52
       = Inl (Exception [''minimize was called''])"
    by (rule mismatch [THEN conjunct2, THEN conjunct2, THEN conjunct2, THEN conjunct2,
          THEN conjunct1, THEN mp])
      (use obj in \<open>simp add: raising_minimizer_def\<close>)
  show ?thesis
    using 1 2 3 4 5 returned by blast
qed

text \<open>
  Against the fail-fast reading of malformed input: with \<open>periods = 0\<close> a result is
  returned; with \<open>periods = -1\<close>, and with an initial vector of one entry for the two
  parameters of the model, the minimizer is reached.
\<close>

theorem fit_malformed_input_counterexample:
  "(\<exists>result. fit (reporting_minimizer [1, 1]) half_rand (SBGModel ''nelder-mead'' None)
                (Flat [0.8, 0.65]) 0 = Inr result
            \<and> result ''retention_curve'' = Some (Curve [1]))
   \<and> fit raising_minimizer half_rand (SBGModel ''nelder-mead'' None) (Flat [0.8, 0.65]) (- 1)
       = Inl (Exception [''minimize was called''])
   \<and> fit raising_minimizer half_rand (SBGModel ''nelder-mead'' (Some [0.5])) (Flat [0.8, 0.65]) 52
       = Inl (Exception [''minimize was called''])"
proof (intro conjI)
  show "\<exists>result. fit (reporting_minimizer [1, 1]) half_rand (SBGModel ''nelder-mead'' None)
                (Flat [0.8, 0.65]) 0 = Inr result
            \<and> result ''retention_curve'' = Some (Curve [1])"
    using example_fit [of 0] by auto
next
  obtain sv where "survival_rates [0.8, 0.65] = Inr sv"
    using survival_rates_nth [of "[0.8, 0.65]"] by auto
  then show "fit raising_minimizer half_rand (SBGModel ''nelder-mead'' None) (Flat [0.8, 0.65]) (- 1)
       = Inl (Exception [''minimize was called''])"
    "fit raising_minimizer half_rand (SBGModel ''nelder-mead'' (Some [0.5])) (Flat [0.8, 0.65]) 52
       = Inl (Exception [''minimize was called''])"
    by (simp_all add: fit_def optimize_def raising_minimizer_def)
qed


end
